theory Spec2Isabelle
  imports Complex_Main "HOL-Library.AList" "HOL-Library.Sublist" "HOL-Library.Multiset"
begin

section \<open>Python values, errors and runtime primitives\<close>

text \<open>
  The development embeds \<^verbatim>\<open>hierarchicalforecast/core.py\<close>: the name resolver
  \<^verbatim>\<open>_build_fn_name\<close>, the sigma estimator \<^verbatim>\<open>_reverse_engineer_sigmah\<close> and the
  class \<^verbatim>\<open>HierarchicalReconciliation\<close> with \<^verbatim>\<open>_prepare_fit\<close>, \<^verbatim>\<open>reconcile\<close> and
  \<^verbatim>\<open>bootstrap_reconcile\<close>. Python identifiers with a leading underscore lose it, since
  an Isabelle name cannot start with one.

  Every \<^verbatim>\<open>raise\<close> of the source, and every exception of pandas, numpy or the
  interpreter that the source can run into, is a value of \<open>error\<close>. The messages of the
  two series-difference errors carry counts in the source; the constructors do not.
\<close>

datatype error =
    UnknownIntervalMethod string
  | NeedYdf
  | LevelOutsideDomain
  | NonNumericTypes
  | NullValues
  | ModelsNotInYdf
  | SeriesDifferenceS
  | SeriesDifferenceY
  | MissingIntervals string
  | KeyError string
  | IndexError
  | ValueError
  | TypeError
  | InvalidIndexError
  | AttributeError string
  | NameError string
  | ReconcilerError string

text \<open>
  Numbers of a level list are Python ints or floats; a float is its real value. Attribute
  values of a reconciler are numbers, strings, booleans or \<^verbatim>\<open>None\<close>.
\<close>

datatype num = PyInt int | PyFloat real

datatype pyval = PNum num | PStr string | PBool bool | PNone

text \<open>
  What the interpreter and scipy provide and the repository does not define: the
  \<^verbatim>\<open>repr\<close> of a float, the standard normal quantile \<^verbatim>\<open>norm.ppf\<close>, and the
  successive readings of \<^verbatim>\<open>time.time()\<close>.
\<close>

record env =
  float_repr :: "real \<Rightarrow> string"
  ppf :: "real \<Rightarrow> real"
  clock :: "nat \<Rightarrow> real"

fun num_val :: "num \<Rightarrow> real" where
  "num_val (PyInt i) = real_of_int i"
| "num_val (PyFloat r) = r"

fun str_nat :: "nat \<Rightarrow> string" where
  "str_nat n =
     (if n < 10 then [''0123456789'' ! n]
      else str_nat (n div 10) @ [''0123456789'' ! (n mod 10)])"

declare str_nat.simps [simp del]

definition str_int :: "int \<Rightarrow> string" where
  "str_int i = (if i < 0 then CHR ''-'' # str_nat (nat (- i)) else str_nat (nat i))"

fun str_num :: "env \<Rightarrow> num \<Rightarrow> string" where
  "str_num E (PyInt i) = str_int i"
| "str_num E (PyFloat r) = float_repr E r"

text \<open>The rendering of \<^verbatim>\<open>f'{value}'\<close>.\<close>

fun py_str :: "env \<Rightarrow> pyval \<Rightarrow> string" where
  "py_str E (PNum n) = str_num E n"
| "py_str E (PStr s) = s"
| "py_str E (PBool b) = (if b then ''True'' else ''False'')"
| "py_str E PNone = ''None''"

fun truthy :: "pyval \<Rightarrow> bool" where
  "truthy (PNum n) = (num_val n \<noteq> 0)"
| "truthy (PStr s) = (s \<noteq> [])"
| "truthy (PBool b) = b"
| "truthy PNone = False"

text \<open>\<^verbatim>\<open>value == 2e-8\<close>: numbers compare by value, \<^verbatim>\<open>True\<close> is 1 and \<^verbatim>\<open>False\<close> is 0.\<close>

fun py_eq_float :: "pyval \<Rightarrow> real \<Rightarrow> bool" where
  "py_eq_float (PNum n) r = (num_val n = r)"
| "py_eq_float (PBool b) r = ((if b then 1 else 0) = r)"
| "py_eq_float (PStr s) r = False"
| "py_eq_float PNone r = False"

text \<open>\<^verbatim>\<open>sep.join(parts)\<close>.\<close>

fun join :: "string \<Rightarrow> string list \<Rightarrow> string" where
  "join sep [] = []"
| "join sep [x] = x"
| "join sep (x # y # ys) = x @ sep @ join sep (y # ys)"

text \<open>\<^verbatim>\<open>sub in s\<close> on strings.\<close>

primrec contains :: "string \<Rightarrow> string \<Rightarrow> bool" where
  "contains [] sub = (sub = [])"
| "contains (c # cs) sub = (prefix sub (c # cs) \<or> contains cs sub)"

section \<open>The reconciler interface\<close>

text \<open>
  A matrix is a two-dimensional numpy array: its shape and its data in row-major order.
  An entry is \<open>Some r\<close> for a finite number and \<open>None\<close> for NaN or an infinity. The cast
  \<^verbatim>\<open>astype(np.float32)\<close> and the rounding of float arithmetic are not modelled: a
  finite entry is the real number.
\<close>

type_synonym fl = "real option"

record 'a array2 =
  nrows :: nat
  ncols :: nat
  mdata :: "'a list"

type_synonym mat = "fl array2"

datatype argval =
    AMat mat
  | ASparse mat
  | AIdx "int list"
  | ATags "(string \<times> int list) list"
  | AStr string
  | AInt int

type_synonym kwargs = "(string \<times> argval) list"

text \<open>
  The dictionary a reconciler returns: \<open>mean\<close> is \<^verbatim>\<open>fcsts_model['mean'].flatten()\<close>,
  \<open>quantiles\<close> the data of \<^verbatim>\<open>fcsts_model['quantiles']\<close> when the key is present.
\<close>

record fcsts =
  mean :: "fl list"
  quantiles :: "fl list option"

text \<open>What \<^verbatim>\<open>fit\<close> returns: an object with \<^verbatim>\<open>predict(S, y_hat, level)\<close> and
  \<^verbatim>\<open>sample(num_samples)\<close>.\<close>

record fitted =
  predict :: "argval \<Rightarrow> argval \<Rightarrow> num list option \<Rightarrow> error + fcsts"
  sample :: "int \<Rightarrow> error + fl list"

text \<open>
  A reconciler is an external collaborator: its type name, its \<^verbatim>\<open>__dict__\<close> in insertion
  order, the attributes \<^verbatim>\<open>insample\<close> and \<^verbatim>\<open>is_sparse_method\<close>, the parameter names
  of its call signature, and its two entry points, \<^verbatim>\<open>__call__(**kwargs, level)\<close> and
  \<^verbatim>\<open>fit(**kwargs)\<close>, as functions of their arguments. What a call changes inside the
  algorithm object is not modelled.
\<close>

record reconciler =
  type_name :: string
  dict :: "(string \<times> pyval) list"
  insample_attr :: bool
  is_sparse_method :: bool
  parameters :: "string list"
  fit_predict :: "kwargs \<Rightarrow> num list option \<Rightarrow> error + fcsts"
  fit :: "kwargs \<Rightarrow> error + fitted"

section \<open>The reconciler name resolver\<close>

text \<open>
  \<^verbatim>\<open>_build_fn_name\<close>, lines 21 to 38. \<open>args_to_remove\<close> is the list the source builds:
  \<^verbatim>\<open>func_params['method']\<close> and \<^verbatim>\<open>func_params['mint_shr_ridge']\<close> raise a
  \<^verbatim>\<open>KeyError\<close> when the key is missing, and \<^verbatim>\<open>and\<close> evaluates its right operand only
  when the left one holds.
\<close>

definition args_to_remove :: "reconciler \<Rightarrow> error + string list" where
  "args_to_remove fn =
     (let func_params = dict fn;
          base = [''insample'', ''num_threads''];
          base = (if truthy (case map_of func_params ''nonnegative'' of
                               None \<Rightarrow> PBool False | Some v \<Rightarrow> v)
                  then base else base @ [''nonnegative''])
      in if type_name fn = ''MinTrace'' then
           (case map_of func_params ''method'' of
              None \<Rightarrow> Inl (KeyError ''method'')
            | Some m \<Rightarrow>
                if m = PStr ''mint_shrink'' then
                  (case map_of func_params ''mint_shr_ridge'' of
                     None \<Rightarrow> Inl (KeyError ''mint_shr_ridge'')
                   | Some r \<Rightarrow>
                       Inr (if py_eq_float r (2 / 10 ^ 8)
                            then base @ [''mint_shr_ridge''] else base))
                else Inr base)
         else Inr base)"

text \<open>The comprehension of line 35: the attributes that are kept, and their tokens.\<close>

definition kept_params :: "string list \<Rightarrow> (string \<times> pyval) list \<Rightarrow> (string \<times> pyval) list" where
  "kept_params rm func_params = filter (\<lambda>(name, v). name \<notin> set rm) func_params"

definition token :: "env \<Rightarrow> string \<times> pyval \<Rightarrow> string" where
  "token E p = fst p @ ''-'' @ py_str E (snd p)"

definition name_tokens :: "env \<Rightarrow> string list \<Rightarrow> (string \<times> pyval) list \<Rightarrow> string list" where
  "name_tokens E rm func_params = map (token E) (kept_params rm func_params)"

definition build_fn_name :: "env \<Rightarrow> reconciler \<Rightarrow> error + string" where
  "build_fn_name E fn =
     (case args_to_remove fn of
        Inl e \<Rightarrow> Inl e
      | Inr rm \<Rightarrow>
          (let func_params = name_tokens E rm (dict fn)
           in Inr (if func_params \<noteq> []
                   then type_name fn @ ''_'' @ join ''_'' func_params
                   else type_name fn)))"

section \<open>Frames and arrays\<close>

text \<open>
  A pandas frame indexed by \<^verbatim>\<open>unique_id\<close>: the index label of every row and the columns
  in order, each with one cell per row. A cell is a number, a null (NaN, \<^verbatim>\<open>None\<close>) or
  any other object, which makes the column non-numeric. Where a label names several
  columns, the model reads the first.
\<close>

datatype cell = CNum real | CNull | CText string

record frame =
  index :: "string list"
  columns :: "(string \<times> cell list) list"

definition col_names :: "frame \<Rightarrow> string list" where
  "col_names df = map fst (columns df)"

definition get_col :: "frame \<Rightarrow> string \<Rightarrow> error + cell list" where
  "get_col df name =
     (case map_of (columns df) name of None \<Rightarrow> Inl (KeyError name) | Some vs \<Rightarrow> Inr vs)"

text \<open>\<^verbatim>\<open>df.drop(columns=drop_cols, axis=1).columns.to_list()\<close>: a label that is not a
  column raises.\<close>

definition drop_names :: "string list \<Rightarrow> frame \<Rightarrow> error + string list" where
  "drop_names drop_cols df =
     (case filter (\<lambda>c. c \<notin> set (col_names df)) drop_cols of
        [] \<Rightarrow> Inr (filter (\<lambda>n. n \<notin> set drop_cols) (col_names df))
      | c # _ \<Rightarrow> Inl (KeyError c))"

text \<open>\<^verbatim>\<open>Index.unique()\<close>: the distinct labels in order of first appearance.\<close>

definition unique :: "'a list \<Rightarrow> 'a list" where
  "unique xs = rev (remdups (rev xs))"

text \<open>\<^verbatim>\<open>values.reshape(n, -1)\<close>: numpy refuses \<open>n = 0\<close> and a size \<open>n\<close> does not divide.\<close>

definition reshape :: "nat \<Rightarrow> 'a list \<Rightarrow> error + 'a array2" where
  "reshape n xs =
     (if n = 0 \<or> length xs mod n \<noteq> 0 then Inl ValueError
      else Inr \<lparr>nrows = n, ncols = length xs div n, mdata = xs\<rparr>)"

text \<open>
  Numeric use of cells. Arithmetic on a non-numeric object raises \<^verbatim>\<open>TypeError\<close>, the
  cast \<^verbatim>\<open>astype(np.float32)\<close> raises \<^verbatim>\<open>ValueError\<close>; \<open>err\<close> is the one that
  applies. (numpy casts an object that is a numeric string; the model raises for every
  non-numeric object.)
\<close>

fun to_fls :: "error \<Rightarrow> cell list \<Rightarrow> error + fl list" where
  "to_fls err [] = Inr []"
| "to_fls err (CNum r # cs) =
     (case to_fls err cs of Inl e \<Rightarrow> Inl e | Inr vs \<Rightarrow> Inr (Some r # vs))"
| "to_fls err (CNull # cs) =
     (case to_fls err cs of Inl e \<Rightarrow> Inl e | Inr vs \<Rightarrow> Inr (None # vs))"
| "to_fls err (CText t # cs) = Inl err"

fun of_fl :: "fl \<Rightarrow> cell" where
  "of_fl (Some r) = CNum r"
| "of_fl None = CNull"

text \<open>numpy broadcasting of two matrices: along each axis the sizes agree or one is 1.\<close>

definition bdim :: "nat \<Rightarrow> nat \<Rightarrow> nat option" where
  "bdim a b = (if a = b then Some a else if a = 1 then Some b else if b = 1 then Some a else None)"

definition entry :: "'a array2 \<Rightarrow> nat \<Rightarrow> nat \<Rightarrow> 'a" where
  "entry m i j = mdata m ! ((if nrows m = 1 then 0 else i) * ncols m + (if ncols m = 1 then 0 else j))"

definition broadcast2 :: "('a \<Rightarrow> 'b \<Rightarrow> 'c) \<Rightarrow> 'a array2 \<Rightarrow> 'b array2 \<Rightarrow> error + 'c array2" where
  "broadcast2 f a b =
     (case bdim (nrows a) (nrows b) of
        None \<Rightarrow> Inl ValueError
      | Some r \<Rightarrow>
          (case bdim (ncols a) (ncols b) of
             None \<Rightarrow> Inl ValueError
           | Some c \<Rightarrow>
               Inr \<lparr>nrows = r, ncols = c,
                    mdata = concat (map (\<lambda>i. map (\<lambda>j. f (entry a i j) (entry b i j)) [0..<c]) [0..<r])\<rparr>))"

section \<open>The interval estimator\<close>

text \<open>
  \<^verbatim>\<open>re.findall('[\d]+[.,\d]+|[\d]*[.][\d]+|[\d]+', s)\<close> on ASCII text. At a digit,
  the first alternative takes the whole run of digits, dots and commas when the run has
  at least two characters; a lone digit falls to the third alternative. At a dot followed
  by a digit, the second alternative takes the dot and the digits after it. Every other
  position starts no match.
\<close>

definition is_digit :: "char \<Rightarrow> bool" where
  "is_digit c = (c \<in> set ''0123456789'')"

definition is_dcp :: "char \<Rightarrow> bool" where
  "is_dcp c = (is_digit c \<or> c = CHR ''.'' \<or> c = CHR '','')"

function findall_number :: "string \<Rightarrow> string list" where
  "findall_number [] = []"
| "findall_number (c # cs) =
     (if is_digit c then
        (case cs of
           [] \<Rightarrow> [[c]]
         | d # ds \<Rightarrow>
             if is_dcp d then (c # takeWhile is_dcp cs) # findall_number (dropWhile is_dcp cs)
             else [c] # findall_number cs)
      else if c = CHR ''.'' then
        (case cs of
           [] \<Rightarrow> []
         | d # ds \<Rightarrow>
             if is_digit d then (c # takeWhile is_digit cs) # findall_number (dropWhile is_digit cs)
             else findall_number cs)
      else findall_number cs)"
  by pat_completeness auto
termination
  by (relation "measure length") (auto simp: less_Suc_eq_le intro!: le_SucI length_dropWhile_le)

declare findall_number.simps [simp del]

text \<open>
  \<^verbatim>\<open>float(s)\<close> for a match of the pattern above, which holds digits, dots and commas
  only: a comma or a second dot raises \<^verbatim>\<open>ValueError\<close> (\<open>None\<close>).
\<close>

definition digit_val :: "char \<Rightarrow> nat" where
  "digit_val c = of_char c - 48"

definition dec_val :: "string \<Rightarrow> nat" where
  "dec_val ds = foldl (\<lambda>a c. 10 * a + digit_val c) 0 ds"

definition py_float :: "string \<Rightarrow> real option" where
  "py_float s =
     (if list_all (\<lambda>c. is_digit c \<or> c = CHR ''.'') s \<and> list_ex is_digit s
         \<and> length (filter (\<lambda>c. c = CHR ''.'') s) \<le> 1
      then (let ip = takeWhile is_digit s; fp = drop (Suc (length ip)) s
            in Some (real (dec_val ip) + real (dec_val fp) / 10 ^ length fp))
      else None)"

text \<open>
  One entry of \<^verbatim>\<open>sign * (sigmah - y_hat) / z\<close>. NaN propagates; a division by
  \<open>z = 0\<close> gives an infinity or NaN in numpy, \<open>None\<close> here.
\<close>

definition sigma_entry :: "real \<Rightarrow> real \<Rightarrow> fl \<Rightarrow> fl \<Rightarrow> fl" where
  "sigma_entry sign z v y =
     (case v of
        None \<Rightarrow> None
      | Some a \<Rightarrow>
          (case y of
             None \<Rightarrow> None
           | Some b \<Rightarrow> if z = 0 then None else Some (sign * (a - b) / z)))"

text \<open>The prediction-interval columns the estimator considers for a model, lines 51 to 58.\<close>

definition pi_model_name :: "frame \<Rightarrow> string \<Rightarrow> error + string list" where
  "pi_model_name Y_hat_df model_name =
     (let cols = col_names Y_hat_df;
          drop_cols = [''ds''] @ (if ''y'' \<in> set cols then [''y''] else [])
                        @ (if model_name @ ''-median'' \<in> set cols
                           then [model_name @ ''-median''] else [])
      in case drop_names drop_cols Y_hat_df of
           Inl e \<Rightarrow> Inl e
         | Inr model_names \<Rightarrow>
             (let pi_model_names =
                    filter (\<lambda>name. contains name ''-lo'' \<or> contains name ''-hi'') model_names
              in Inr (filter (\<lambda>pi_name. contains pi_name model_name) pi_model_names)))"

text \<open>\<^verbatim>\<open>_reverse_engineer_sigmah\<close>, lines 41 to 74.\<close>

definition reverse_engineer_sigmah :: "env \<Rightarrow> frame \<Rightarrow> mat \<Rightarrow> string \<Rightarrow> error + mat" where
  "reverse_engineer_sigmah E Y_hat_df y_hat model_name =
     (case pi_model_name Y_hat_df model_name of
        Inl e \<Rightarrow> Inl e
      | Inr [] \<Rightarrow> Inl (MissingIntervals model_name)
      | Inr (pi_col # _) \<Rightarrow>
          (let n_series = length (unique (index Y_hat_df));
               sign = (if contains pi_col ''lo'' then - 1 else 1)
           in case findall_number pi_col of
                [] \<Rightarrow> Inl IndexError
              | m # ms \<Rightarrow>
                  (case py_float (last (m # ms)) of
                     None \<Rightarrow> Inl ValueError
                   | Some level_col \<Rightarrow>
                       (let z = ppf E (0.5 + level_col / 200)
                        in case get_col Y_hat_df pi_col of
                             Inl e \<Rightarrow> Inl e
                           | Inr vs \<Rightarrow>
                               (case reshape n_series vs of
                                  Inl e \<Rightarrow> Inl e
                                | Inr sigmah \<Rightarrow>
                                    (case to_fls TypeError (mdata sigmah) of
                                       Inl e \<Rightarrow> Inl e
                                     | Inr d \<Rightarrow>
                                         broadcast2 (sigma_entry sign z)
                                           \<lparr>nrows = nrows sigmah, ncols = ncols sigmah, mdata = d\<rparr> y_hat))))))"

section \<open>The orchestrator: construction, alignment and validation\<close>

text \<open>
  The hierarchy matrix \<^verbatim>\<open>S\<close>: its row labels, its column labels (the bottom series),
  one row of values per row label, and whether its columns have a sparse dtype.
\<close>

record sframe =
  s_index :: "string list"
  s_columns :: "string list"
  s_values :: "fl list list"
  s_sparse :: bool

text \<open>
  The attributes of a \<^verbatim>\<open>HierarchicalReconciliation\<close> instance. \<^verbatim>\<open>__init__\<close> sets the
  first three; the others do not exist (\<open>None\<close>) until \<^verbatim>\<open>reconcile\<close> assigns them.
  \<^verbatim>\<open>copy.deepcopy\<close> of the reconcilers is a copy of their values.
\<close>

record hrec =
  self_reconcilers :: "reconciler list"
  self_orig_reconcilers :: "reconciler list"
  self_insample :: bool
  self_model_names :: "string list option"
  self_execution_times :: "(string \<times> real) list option"
  self_level_names :: "(string \<times> string list) list option"
  self_sample_names :: "(string \<times> string list) list option"

definition init :: "reconciler list \<Rightarrow> hrec" where
  "init rs =
     \<lparr>self_reconcilers = rs, self_orig_reconcilers = rs,
      self_insample = list_ex insample_attr rs,
      self_model_names = None, self_execution_times = None,
      self_level_names = None, self_sample_names = None\<rparr>"

text \<open>
  Sorting rows by \<^verbatim>\<open>['unique_id', 'ds']\<close>, with \<^verbatim>\<open>unique_id\<close> a categorical whose
  categories are the rows of \<^verbatim>\<open>S\<close> in order: a stable sort on the position of the label
  in \<^verbatim>\<open>S\<close> (a label \<^verbatim>\<open>S\<close> does not have sorts last), then on the timestamp. Timestamps
  order as numbers, then text, then nulls. pandas turns a label that is no category into
  NaN; the model keeps the label, which changes no check below.
\<close>

fun insort_by :: "('a \<Rightarrow> 'a \<Rightarrow> bool) \<Rightarrow> 'a \<Rightarrow> 'a list \<Rightarrow> 'a list" where
  "insort_by le x [] = [x]"
| "insort_by le x (y # ys) = (if le x y then x # y # ys else y # insort_by le x ys)"

definition sort_by :: "('a \<Rightarrow> 'a \<Rightarrow> bool) \<Rightarrow> 'a list \<Rightarrow> 'a list" where
  "sort_by le xs = foldr (insort_by le) xs []"

fun str_le :: "string \<Rightarrow> string \<Rightarrow> bool" where
  "str_le [] ys = True"
| "str_le (x # xs) [] = False"
| "str_le (x # xs) (y # ys) =
     ((of_char x :: nat) < of_char y \<or> (x = y \<and> str_le xs ys))"

fun cell_le :: "cell \<Rightarrow> cell \<Rightarrow> bool" where
  "cell_le (CNum a) (CNum b) = (a \<le> b)"
| "cell_le (CNum a) (CText t) = True"
| "cell_le (CNum a) CNull = True"
| "cell_le (CText s) (CNum b) = False"
| "cell_le (CText s) (CText t) = str_le s t"
| "cell_le (CText s) CNull = True"
| "cell_le CNull (CNum b) = False"
| "cell_le CNull (CText t) = False"
| "cell_le CNull CNull = True"

fun index_of :: "'a list \<Rightarrow> 'a \<Rightarrow> nat" where
  "index_of [] x = 0"
| "index_of (y # ys) x = (if x = y then 0 else Suc (index_of ys x))"

definition row_le :: "string list \<Rightarrow> string list \<Rightarrow> cell list \<Rightarrow> nat \<Rightarrow> nat \<Rightarrow> bool" where
  "row_le cats ids ds i j =
     (index_of cats (ids ! i) < index_of cats (ids ! j)
      \<or> (index_of cats (ids ! i) = index_of cats (ids ! j) \<and> cell_le (ds ! i) (ds ! j)))"

text \<open>
  Lines 111 to 115 (and 118 to 122): \<^verbatim>\<open>reset_index\<close> cannot insert \<^verbatim>\<open>unique_id\<close>
  beside a column of that name, \<^verbatim>\<open>set_categories\<close> refuses repeated categories, and
  \<^verbatim>\<open>sort_values\<close> needs the column \<^verbatim>\<open>ds\<close>. Every column has one cell per row.
\<close>

definition sort_frame :: "string list \<Rightarrow> frame \<Rightarrow> error + frame" where
  "sort_frame cats df =
     (if ''unique_id'' \<in> set (col_names df) then Inl ValueError
      else if \<not> distinct cats then Inl ValueError
      else (case get_col df ''ds'' of
              Inl e \<Rightarrow> Inl e
            | Inr ds \<Rightarrow>
                (let perm = sort_by (row_le cats (index df) ds) [0..<length (index df)]
                 in Inr \<lparr>index = map (\<lambda>i. index df ! i) perm,
                         columns = map (\<lambda>(n, vs). (n, map (\<lambda>i. vs ! i) perm)) (columns df)\<rparr>)))"

definition numeric_col :: "frame \<Rightarrow> string \<Rightarrow> bool" where
  "numeric_col df name =
     (case map_of (columns df) name of
        None \<Rightarrow> False
      | Some vs \<Rightarrow> list_all (\<lambda>c. case c of CText t \<Rightarrow> False | _ \<Rightarrow> True) vs)"

definition null_col :: "frame \<Rightarrow> string \<Rightarrow> bool" where
  "null_col df name =
     (case map_of (columns df) name of None \<Rightarrow> False | Some vs \<Rightarrow> list_ex (\<lambda>c. c = CNull) vs)"

text \<open>\<^verbatim>\<open>len(a.difference(b)) > 0\<close> on index labels.\<close>

definition differs :: "string list \<Rightarrow> string list \<Rightarrow> bool" where
  "differs a b = list_ex (\<lambda>x. x \<notin> set b) a"

text \<open>\<^verbatim>\<open>S_df.loc[uids]\<close>, every label of \<open>uids\<close> being a row label: the rows of each
  label in turn.\<close>

definition loc_rows :: "sframe \<Rightarrow> string list \<Rightarrow> sframe" where
  "loc_rows S_df uids =
     (let rows = concat (map (\<lambda>u. filter (\<lambda>(l, v). l = u) (zip (s_index S_df) (s_values S_df))) uids)
      in S_df\<lparr>s_index := map fst rows, s_values := map snd rows\<rparr>)"

text \<open>The level guard, lines 136 to 139.\<close>

definition level_outside_domain :: "num list \<Rightarrow> bool" where
  "level_outside_domain level = list_ex (\<lambda>l. num_val l < 0 \<or> num_val l \<ge> 100) level"

text \<open>The checks of \<^verbatim>\<open>_prepare_fit\<close>, lines 128 to 179, in the source's order.\<close>

definition check_inputs ::
  "hrec \<Rightarrow> frame \<Rightarrow> sframe \<Rightarrow> frame option \<Rightarrow> num list option \<Rightarrow> string
    \<Rightarrow> error + (frame \<times> sframe \<times> frame option \<times> string list)" where
  "check_inputs self Y_hat_df S_df Y_df level intervals_method =
     (if intervals_method \<notin> set [''normality'', ''bootstrap'', ''permbu'']
      then Inl (UnknownIntervalMethod intervals_method)
      else if (self_insample self \<or> intervals_method \<in> set [''bootstrap'', ''permbu''])
              \<and> Y_df = None
      then Inl NeedYdf
      else if (case level of None \<Rightarrow> False | Some lv \<Rightarrow> level_outside_domain lv)
              \<and> intervals_method \<in> set [''normality'', ''permbu'']
      then Inl LevelOutsideDomain
      else
        (case drop_names (if ''y'' \<in> set (col_names Y_hat_df) then [''ds'', ''y''] else [''ds''])
                Y_hat_df of
           Inl e \<Rightarrow> Inl e
         | Inr model_names \<Rightarrow>
             if \<not> list_all (numeric_col Y_hat_df) model_names then Inl NonNumericTypes
             else if list_ex (null_col Y_hat_df) model_names then Inl NullValues
             else
               (let pi_model_names =
                      filter (\<lambda>name. contains name ''-lo'' \<or> contains name ''-hi''
                                \<or> contains name ''-median'') model_names;
                    model_names = filter (\<lambda>name. name \<notin> set pi_model_names) model_names;
                    uids = unique (index Y_hat_df)
                in if intervals_method \<in> set [''bootstrap'', ''permbu'']
                      \<and> (case Y_df of
                            None \<Rightarrow> True
                          | Some yd \<Rightarrow> list_ex (\<lambda>m. m \<notin> set (col_names yd)) model_names)
                   then Inl ModelsNotInYdf
                   else if differs (s_index S_df) uids \<or> differs (index Y_hat_df) (s_index S_df)
                   then Inl SeriesDifferenceS
                   else if (case Y_df of
                              None \<Rightarrow> False
                            | Some yd \<Rightarrow> differs (index yd) uids \<or> differs (index Y_hat_df) (index yd))
                   then Inl SeriesDifferenceY
                   else Inr (Y_hat_df, loc_rows S_df uids, Y_df, model_names))))"

text \<open>\<^verbatim>\<open>_prepare_fit\<close>, lines 98 to 179. The argument \<^verbatim>\<open>tags\<close> is not read.\<close>

definition prepare_fit ::
  "hrec \<Rightarrow> frame \<Rightarrow> sframe \<Rightarrow> frame option \<Rightarrow> num list option \<Rightarrow> string \<Rightarrow> bool
    \<Rightarrow> error + (frame \<times> sframe \<times> frame option \<times> string list)" where
  "prepare_fit self Y_hat_df S_df Y_df level intervals_method sort_df =
     (if sort_df then
        (case sort_frame (s_index S_df) Y_hat_df of
           Inl e \<Rightarrow> Inl e
         | Inr Y_hat_sorted \<Rightarrow>
             (case Y_df of
                None \<Rightarrow> check_inputs self Y_hat_sorted S_df None level intervals_method
              | Some yd \<Rightarrow>
                  (case sort_frame (s_index S_df) yd of
                     Inl e \<Rightarrow> Inl e
                   | Inr Y_sorted \<Rightarrow>
                       check_inputs self Y_hat_sorted S_df (Some Y_sorted) level intervals_method)))
      else check_inputs self Y_hat_df S_df Y_df level intervals_method)"

text \<open>Whether the sorting of lines 110 to 124 goes through (it always does when
  \<^verbatim>\<open>sort_df\<close> is off).\<close>

definition aligned :: "bool \<Rightarrow> frame \<Rightarrow> sframe \<Rightarrow> frame option \<Rightarrow> bool" where
  "aligned sort_df Y_hat_df S_df Y_df =
     (if sort_df
      then (case sort_frame (s_index S_df) Y_hat_df of
              Inl e \<Rightarrow> False
            | Inr Y_hat_sorted \<Rightarrow>
                (case Y_df of
                   None \<Rightarrow> True
                 | Some yd \<Rightarrow> (case sort_frame (s_index S_df) yd of Inl e \<Rightarrow> False | Inr Y_sorted \<Rightarrow> True)))
      else True)"

section \<open>The orchestrator: dispatch and assembly\<close>

text \<open>
  \<^verbatim>\<open>reconcile\<close> changes three things a caller can see afterwards, also when it raises:
  the attributes of the instance, the caller's \<^verbatim>\<open>level\<close> list (the argument is a
  reference to it; \<open>None\<close> when the argument is \<^verbatim>\<open>None\<close>), and the reconcilers it has
  invoked. \<open>w_calls\<close> records each invocation of an entry point of a reconciler, with the
  \<^verbatim>\<open>recmodel_name\<close> it was made for; \<open>w_ticks\<close> counts the readings of the clock.
  Line 124 also gives the caller's \<^verbatim>\<open>S\<close> frame a categorical index when \<^verbatim>\<open>sort_df\<close> is
  on; its labels and their order, which are all a frame keeps of an index here, stay.
\<close>

datatype entry_point = Call | Fit | Predict | Sample

record world =
  w_self :: hrec
  w_level :: "num list option"
  w_ticks :: nat
  w_calls :: "(entry_point \<times> string) list"

text \<open>The state of the loops of \<^verbatim>\<open>reconcile\<close>: the world, and the locals the loops
  assign, \<^verbatim>\<open>Y_tilde_df\<close> and the dictionary \<^verbatim>\<open>reconciler_args\<close>.\<close>

record run =
  world :: world
  Y_tilde_df :: frame
  reconciler_args :: kwargs

text \<open>The locals and arguments the loops only read.\<close>

record ctx =
  loc_env :: env
  loc_Y_hat_df :: frame
  loc_S_df :: sframe
  loc_Y_df :: "frame option"
  loc_intervals_method :: string
  loc_num_samples :: int
  loc_seed :: int
  loc_is_balanced :: bool
  loc_start :: real

type_synonym 'a res = "(error + 'a) \<times> run"

text \<open>Sequencing: an exception ends the computation and leaves the state as it is.\<close>

definition and_then :: "'a res \<Rightarrow> ('a \<Rightarrow> run \<Rightarrow> 'b res) \<Rightarrow> 'b res" where
  "and_then m f = (case m of (Inl e, r) \<Rightarrow> (Inl e, r) | (Inr x, r) \<Rightarrow> f x r)"

definition set_arg :: "string \<Rightarrow> argval \<Rightarrow> run \<Rightarrow> run" where
  "set_arg k v r = r\<lparr>reconciler_args := AList.update k v (reconciler_args r)\<rparr>"

definition get_arg :: "run \<Rightarrow> string \<Rightarrow> error + argval" where
  "get_arg r k = (case map_of (reconciler_args r) k of None \<Rightarrow> Inl (KeyError k) | Some v \<Rightarrow> Inr v)"

definition log_call :: "entry_point \<Rightarrow> string \<Rightarrow> run \<Rightarrow> run" where
  "log_call ep name r = r\<lparr>world := (world r)\<lparr>w_calls := w_calls (world r) @ [(ep, name)]\<rparr>\<rparr>"

definition update_self :: "(hrec \<Rightarrow> hrec) \<Rightarrow> run \<Rightarrow> run" where
  "update_self f r = r\<lparr>world := (world r)\<lparr>w_self := f (w_self (world r))\<rparr>\<rparr>"

text \<open>\<^verbatim>\<open>Index.get_indexer(target)\<close>: the position of each label, \<open>-1\<close> for a label the
  index does not have; an index with repeated labels raises.\<close>

definition get_indexer :: "string list \<Rightarrow> string list \<Rightarrow> error + int list" where
  "get_indexer idx target =
     (if \<not> distinct idx then Inl InvalidIndexError
      else Inr (map (\<lambda>t. if t \<in> set idx then int (index_of idx t) else - 1) target))"

text \<open>\<^verbatim>\<open>df[col].values.reshape(n, -1).astype(np.float32)\<close>.\<close>

definition astype_float32 :: "cell array2 \<Rightarrow> error + mat" where
  "astype_float32 m =
     (case to_fls ValueError (mdata m) of
        Inl e \<Rightarrow> Inl e
      | Inr d \<Rightarrow> Inr \<lparr>nrows = nrows m, ncols = ncols m, mdata = d\<rparr>)"

definition column_matrix :: "frame \<Rightarrow> nat \<Rightarrow> string \<Rightarrow> error + mat" where
  "column_matrix df n col =
     (case get_col df col of
        Inl e \<Rightarrow> Inl e
      | Inr vs \<Rightarrow> (case reshape n vs of Inl e \<Rightarrow> Inl e | Inr m \<Rightarrow> astype_float32 m))"

text \<open>
  \<^verbatim>\<open>Y_df.pivot(columns='ds', values=col).loc[labels]\<close>: one row per label, one column per
  distinct timestamp in ascending order, null where the series has no row at the
  timestamp. Two rows of one series at one timestamp raise.
\<close>

definition pivot :: "frame \<Rightarrow> string \<Rightarrow> string list \<Rightarrow> error + cell array2" where
  "pivot Y_df col labels =
     (case get_col Y_df ''ds'' of
        Inl e \<Rightarrow> Inl e
      | Inr ds \<Rightarrow>
          (case get_col Y_df col of
             Inl e \<Rightarrow> Inl e
           | Inr vs \<Rightarrow>
               if \<not> distinct (zip (index Y_df) ds) then Inl ValueError
               else if differs labels (index Y_df) then Inl (KeyError ''unique_id'')
               else
                 (let dss = sort_by cell_le (unique ds);
                      tab = zip (zip (index Y_df) ds) vs
                  in Inr \<lparr>nrows = length labels, ncols = length dss,
                          mdata = concat (map (\<lambda>l. map (\<lambda>d. case map_of tab (l, d) of
                                                               None \<Rightarrow> CNull | Some v \<Rightarrow> v) dss)
                                            labels)\<rparr>)))"

text \<open>Lines 249 to 252 and 277 to 280: the historical values of a column as a matrix.\<close>

definition insample_values :: "frame \<Rightarrow> sframe \<Rightarrow> bool \<Rightarrow> string \<Rightarrow> error + mat" where
  "insample_values Y_df S_df is_balanced col =
     (if is_balanced then column_matrix Y_df (length (s_index S_df)) col
      else (case pivot Y_df col (s_index S_df) of Inl e \<Rightarrow> Inl e | Inr m \<Rightarrow> astype_float32 m))"

text \<open>\<^verbatim>\<open>S_df.values.astype(np.float32)\<close>, and the matrix handed to a sparse method: a
  sparse one when \<^verbatim>\<open>S_df.sparse\<close> exists, the dense one (with a warning) otherwise.\<close>

definition s_matrix :: "sframe \<Rightarrow> mat" where
  "s_matrix S_df =
     \<lparr>nrows = length (s_index S_df), ncols = length (s_columns S_df), mdata = concat (s_values S_df)\<rparr>"

definition S_for_sparse :: "sframe \<Rightarrow> argval" where
  "S_for_sparse S_df = (if s_sparse S_df then ASparse (s_matrix S_df) else AMat (s_matrix S_df))"

text \<open>Lines 235 to 253: the first entries of \<^verbatim>\<open>reconciler_args\<close>.\<close>

definition initial_args ::
  "sframe \<Rightarrow> sframe \<Rightarrow> (string \<times> string list) list \<Rightarrow> frame option \<Rightarrow> bool \<Rightarrow> error + kwargs" where
  "initial_args S S_df tags Y_df is_balanced =
     (case get_indexer (s_index S_df) (s_columns S) of
        Inl e \<Rightarrow> Inl e
      | Inr idx_bottom \<Rightarrow>
          (let args = [(''idx_bottom'', AIdx idx_bottom),
                       (''tags'', ATags (map (\<lambda>(key, val).
                           (key, map (\<lambda>t. if t \<in> set (s_index S_df)
                                           then int (index_of (s_index S_df) t) else - 1) val)) tags))]
           in case Y_df of
                None \<Rightarrow> Inr args
              | Some yd \<Rightarrow>
                  (case insample_values yd S_df is_balanced ''y'' of
                     Inl e \<Rightarrow> Inl e
                   | Inr y_insample \<Rightarrow> Inr (args @ [(''y_insample'', AMat y_insample)]))))"

subsection \<open>One (reconciler, model) pair\<close>

text \<open>Lines 273 and 274.\<close>

definition put_y_hat :: "ctx \<Rightarrow> string \<Rightarrow> run \<Rightarrow> mat res" where
  "put_y_hat C model_name r =
     (case column_matrix (loc_Y_hat_df C) (length (s_index (loc_S_df C))) model_name of
        Inl e \<Rightarrow> (Inl e, r)
      | Inr y_hat \<Rightarrow> (Inr y_hat, set_arg ''y_hat'' (AMat y_hat) r))"

text \<open>Lines 276 to 281. Subscripting \<^verbatim>\<open>Y_df = None\<close> raises \<^verbatim>\<open>TypeError\<close>.\<close>

definition put_y_hat_insample :: "ctx \<Rightarrow> bool \<Rightarrow> string \<Rightarrow> run \<Rightarrow> unit res" where
  "put_y_hat_insample C has_fitted model_name r =
     (if (self_insample (w_self (world r)) \<and> has_fitted)
          \<or> loc_intervals_method C \<in> set [''bootstrap'', ''permbu'']
      then (case loc_Y_df C of
              None \<Rightarrow> (Inl TypeError, r)
            | Some yd \<Rightarrow>
                (case insample_values yd (loc_S_df C) (loc_is_balanced C) model_name of
                   Inl e \<Rightarrow> (Inl e, r)
                 | Inr y_hat_insample \<Rightarrow>
                     (Inr (), set_arg ''y_hat_insample'' (AMat y_hat_insample) r)))
      else (Inr (), r))"

text \<open>Lines 283 to 291.\<close>

definition put_level_args :: "ctx \<Rightarrow> bool \<Rightarrow> string \<Rightarrow> mat \<Rightarrow> run \<Rightarrow> unit res" where
  "put_level_args C has_level model_name y_hat r =
     (if has_level \<and> w_level (world r) \<noteq> None then
        (case (if loc_intervals_method C \<in> set [''normality'', ''permbu'']
               then (case reverse_engineer_sigmah (loc_env C) (loc_Y_hat_df C) y_hat model_name of
                       Inl e \<Rightarrow> Inl e
                     | Inr sigmah \<Rightarrow> Inr (set_arg ''sigmah'' (AMat sigmah) r))
               else Inr r) of
           Inl e \<Rightarrow> (Inl e, r)
         | Inr r1 \<Rightarrow>
             (Inr (), set_arg ''seed'' (AInt (loc_seed C))
                        (set_arg ''num_samples'' (AInt 200)
                          (set_arg ''intervals_method'' (AStr (loc_intervals_method C)) r1))))
      else (Inr (), r))"

text \<open>Lines 294 and 295: the arguments the signature of the reconciler names.\<close>

definition kwargs_of :: "string list \<Rightarrow> kwargs \<Rightarrow> kwargs" where
  "kwargs_of params args =
     concat (map (\<lambda>key. case map_of args key of None \<Rightarrow> [] | Some v \<Rightarrow> [(key, v)]) params)"

text \<open>Lines 297 to 304: the stateful mode keeps the fitted reconciler, the combined
  mode does not.\<close>

definition invoke :: "ctx \<Rightarrow> reconciler \<Rightarrow> string \<Rightarrow> run \<Rightarrow> (fcsts \<times> fitted option) res" where
  "invoke C reconcile_fn recmodel_name r =
     (let kwargs = kwargs_of (parameters reconcile_fn) (reconciler_args r);
          level = w_level (world r)
      in if level \<noteq> None \<and> loc_num_samples C > 0 then
           (let r1 = log_call Fit recmodel_name r
            in case fit reconcile_fn kwargs of
                 Inl e \<Rightarrow> (Inl e, r1)
               | Inr reconciler \<Rightarrow>
                   (case get_arg r1 ''S'' of
                      Inl e \<Rightarrow> (Inl e, r1)
                    | Inr S \<Rightarrow>
                        (case get_arg r1 ''y_hat'' of
                           Inl e \<Rightarrow> (Inl e, r1)
                         | Inr y_hat \<Rightarrow>
                             (let r2 = log_call Predict recmodel_name r1
                              in case predict reconciler S y_hat level of
                                   Inl e \<Rightarrow> (Inl e, r2)
                                 | Inr fcsts_model \<Rightarrow> (Inr (fcsts_model, Some reconciler), r2)))))
         else
           (let r1 = log_call Call recmodel_name r
            in case fit_predict reconcile_fn kwargs level of
                 Inl e \<Rightarrow> (Inl e, r1)
               | Inr fcsts_model \<Rightarrow> (Inr (fcsts_model, None), r1)))"

text \<open>
  \<^verbatim>\<open>df[name] = values\<close>: the values must have one entry per row; an existing column
  of that name (every one, when several have it) takes the values, otherwise a new last
  column does.
\<close>

definition set_col :: "frame \<Rightarrow> string \<Rightarrow> cell list \<Rightarrow> error + frame" where
  "set_col df name vals =
     (if length vals \<noteq> length (index df) then Inl ValueError
      else Inr (if name \<in> set (col_names df)
                then df\<lparr>columns := map (\<lambda>(n, vs). if n = name then (n, vals) else (n, vs)) (columns df)\<rparr>
                else df\<lparr>columns := columns df @ [(name, vals)]\<rparr>))"

text \<open>
  \<^verbatim>\<open>pd.concat([df, pd.DataFrame(np.reshape(data, (len(df), -1)), index=df.index,
  columns=names)], axis=1)\<close>: the data must fill whole rows, one entry per name.
\<close>

definition matrix_columns :: "string list \<Rightarrow> mat \<Rightarrow> (string \<times> cell list) list" where
  "matrix_columns names m =
     map (\<lambda>(j, name). (name, map (\<lambda>i. of_fl (mdata m ! (i * ncols m + j))) [0..<nrows m]))
       (zip [0..<length names] names)"

definition concat_columns :: "frame \<Rightarrow> string list \<Rightarrow> fl list \<Rightarrow> error + frame" where
  "concat_columns df names data =
     (case reshape (length (index df)) data of
        Inl e \<Rightarrow> Inl e
      | Inr m \<Rightarrow>
          if ncols m \<noteq> length names then Inl ValueError
          else Inr (df\<lparr>columns := columns df @ matrix_columns names m\<rparr>))"

text \<open>Line 307.\<close>

definition put_mean :: "string \<Rightarrow> fcsts \<Rightarrow> run \<Rightarrow> unit res" where
  "put_mean recmodel_name fcsts_model r =
     (case set_col (Y_tilde_df r) recmodel_name (map of_fl (mean fcsts_model)) of
        Inl e \<Rightarrow> (Inl e, r)
      | Inr df \<Rightarrow> (Inr (), r\<lparr>Y_tilde_df := df\<rparr>))"

text \<open>The names of lines 310, 311 and 320.\<close>

definition lo_names :: "env \<Rightarrow> string \<Rightarrow> num list \<Rightarrow> string list" where
  "lo_names E recmodel_name level = map (\<lambda>lv. recmodel_name @ ''-lo-'' @ str_num E lv) (rev level)"

definition hi_names :: "env \<Rightarrow> string \<Rightarrow> num list \<Rightarrow> string list" where
  "hi_names E recmodel_name level = map (\<lambda>lv. recmodel_name @ ''-hi-'' @ str_num E lv) level"

definition sample_names :: "string \<Rightarrow> int \<Rightarrow> string list" where
  "sample_names recmodel_name num_samples =
     map (\<lambda>i. recmodel_name @ ''-sample-'' @ str_int (int i)) [0..<nat num_samples]"

text \<open>\<^verbatim>\<open>level.sort()\<close>: a stable ascending sort of the list, in place.\<close>

definition sort_level :: "num list \<Rightarrow> num list" where
  "sort_level level = sort_key num_val level"

text \<open>Lines 318 to 324. \<^verbatim>\<open>reconciler\<close> is bound by line 299 under the condition that
  leads here; were it not, the name would be unbound.\<close>

definition put_samples :: "ctx \<Rightarrow> string \<Rightarrow> fitted option \<Rightarrow> run \<Rightarrow> unit res" where
  "put_samples C recmodel_name reconciler r =
     (if loc_num_samples C > 0 then
        (case reconciler of
           None \<Rightarrow> (Inl (NameError ''reconciler''), r)
         | Some rec \<Rightarrow>
             (let r1 = log_call Sample recmodel_name r
              in case sample rec (loc_num_samples C) of
                   Inl e \<Rightarrow> (Inl e, r1)
                 | Inr samples \<Rightarrow>
                     (let names = sample_names recmodel_name (loc_num_samples C);
                          r2 = update_self (\<lambda>self. self\<lparr>self_sample_names :=
                                 map_option (AList.update recmodel_name names)
                                   (self_sample_names self)\<rparr>) r1
                      in case concat_columns (Y_tilde_df r2) names samples of
                           Inl e \<Rightarrow> (Inl e, r2)
                         | Inr df \<Rightarrow> (Inr (), r2\<lparr>Y_tilde_df := df\<rparr>))))
      else (Inr (), r))"

text \<open>Lines 308 to 327.\<close>

definition put_intervals :: "ctx \<Rightarrow> string \<Rightarrow> fcsts \<Rightarrow> fitted option \<Rightarrow> run \<Rightarrow> unit res" where
  "put_intervals C recmodel_name fcsts_model reconciler r =
     (case w_level (world r) of
        None \<Rightarrow> (Inr (), r)
      | Some level0 \<Rightarrow>
          if loc_intervals_method C \<in> set [''bootstrap'', ''normality'', ''permbu''] then
            (let level = sort_level level0;
                 names = lo_names (loc_env C) recmodel_name level
                           @ hi_names (loc_env C) recmodel_name level;
                 r1 = update_self (\<lambda>self. self\<lparr>self_level_names :=
                        map_option (AList.update recmodel_name names) (self_level_names self)\<rparr>)
                        (r\<lparr>world := (world r)\<lparr>w_level := Some level\<rparr>\<rparr>)
             in case quantiles fcsts_model of
                  None \<Rightarrow> (Inl (KeyError ''quantiles''), r1)
                | Some q \<Rightarrow>
                    (case concat_columns (Y_tilde_df r1) names q of
                       Inl e \<Rightarrow> (Inl e, r1)
                     | Inr df \<Rightarrow> put_samples C recmodel_name reconciler (r1\<lparr>Y_tilde_df := df\<rparr>)))
          else (Inr (), r))"

text \<open>Lines 332 and 333.\<close>

definition record_time :: "ctx \<Rightarrow> string \<Rightarrow> run \<Rightarrow> run" where
  "record_time C recmodel_name r =
     (let end = clock (loc_env C) (w_ticks (world r));
          r1 = r\<lparr>world := (world r)\<lparr>w_ticks := Suc (w_ticks (world r))\<rparr>\<rparr>
      in update_self (\<lambda>self. self\<lparr>self_execution_times :=
           map_option (AList.update recmodel_name (end - loc_start C)) (self_execution_times self)\<rparr>) r1)"

text \<open>The body of the loop over the models, lines 272 to 333.\<close>

definition model_step :: "ctx \<Rightarrow> reconciler \<Rightarrow> string \<Rightarrow> string \<Rightarrow> run \<Rightarrow> unit res" where
  "model_step C reconcile_fn reconcile_fn_name model_name r =
     (let recmodel_name = model_name @ ''/'' @ reconcile_fn_name;
          has_fitted = (''y_hat_insample'' \<in> set (parameters reconcile_fn));
          has_level = (''level'' \<in> set (parameters reconcile_fn))
      in and_then (put_y_hat C model_name r) (\<lambda>y_hat r.
         and_then (put_y_hat_insample C has_fitted model_name r) (\<lambda>_ r.
         and_then (put_level_args C has_level model_name y_hat r) (\<lambda>_ r.
         and_then (invoke C reconcile_fn recmodel_name r) (\<lambda>(fcsts_model, reconciler) r.
         and_then (put_mean recmodel_name fcsts_model r) (\<lambda>_ r.
         and_then (put_intervals C recmodel_name fcsts_model reconciler r) (\<lambda>_ r.
         (Inr (), record_time C recmodel_name r))))))))"

subsection \<open>The loops and the entry points\<close>

fun models_loop :: "ctx \<Rightarrow> reconciler \<Rightarrow> string \<Rightarrow> string list \<Rightarrow> run \<Rightarrow> unit res" where
  "models_loop C reconcile_fn reconcile_fn_name [] r = (Inr (), r)"
| "models_loop C reconcile_fn reconcile_fn_name (model_name # rest) r =
     and_then (model_step C reconcile_fn reconcile_fn_name model_name r)
       (\<lambda>_ r. models_loop C reconcile_fn reconcile_fn_name rest r)"

text \<open>The body of the loop over the reconcilers, lines 261 to 333. The name comes from
  the copy made at construction; \<^verbatim>\<open>self.model_names\<close> is read from the instance.\<close>

definition reconciler_step :: "ctx \<Rightarrow> reconciler \<times> reconciler \<Rightarrow> run \<Rightarrow> unit res" where
  "reconciler_step C p r =
     (case build_fn_name (loc_env C) (snd p) of
        Inl e \<Rightarrow> (Inl e, r)
      | Inr reconcile_fn_name \<Rightarrow>
          (let r1 = set_arg ''S'' (if is_sparse_method (fst p) then S_for_sparse (loc_S_df C)
                                    else AMat (s_matrix (loc_S_df C))) r
           in case self_model_names (w_self (world r1)) of
                None \<Rightarrow> (Inl (AttributeError ''model_names''), r1)
              | Some model_names \<Rightarrow> models_loop C (fst p) reconcile_fn_name model_names r1))"

fun reconcilers_loop :: "ctx \<Rightarrow> (reconciler \<times> reconciler) list \<Rightarrow> run \<Rightarrow> unit res" where
  "reconcilers_loop C [] r = (Inr (), r)"
| "reconcilers_loop C (p # ps) r =
     and_then (reconciler_step C p r) (\<lambda>_ r. reconcilers_loop C ps r)"

text \<open>
  \<^verbatim>\<open>reconcile\<close>, lines 181 to 335. The argument \<^verbatim>\<open>level\<close> is \<open>w_level W\<close>. The result
  is the returned frame or the exception, with the world as the call leaves it.
\<close>

definition reconcile ::
  "env \<Rightarrow> world \<Rightarrow> frame \<Rightarrow> sframe \<Rightarrow> (string \<times> string list) list \<Rightarrow> frame option \<Rightarrow> string
    \<Rightarrow> int \<Rightarrow> int \<Rightarrow> bool \<Rightarrow> bool \<Rightarrow> (error + frame) \<times> world" where
  "reconcile E W Y_hat_df S tags Y_df intervals_method num_samples seed sort_df is_balanced =
     (case prepare_fit (w_self W) Y_hat_df S Y_df (w_level W) intervals_method sort_df of
        Inl e \<Rightarrow> (Inl e, W)
      | Inr (Y_hat_df1, S_df, Y_df1, model_names) \<Rightarrow>
          (let W1 = W\<lparr>w_self := (w_self W)\<lparr>self_model_names := Some model_names\<rparr>\<rparr>
           in case initial_args S S_df tags Y_df1 is_balanced of
                Inl e \<Rightarrow> (Inl e, W1)
              | Inr args \<Rightarrow>
                  (let start = clock E (w_ticks W1);
                       W2 = W1\<lparr>w_ticks := Suc (w_ticks W1),
                               w_self := (w_self W1)\<lparr>self_execution_times := Some [],
                                 self_level_names := Some [], self_sample_names := Some []\<rparr>\<rparr>;
                       C = \<lparr>loc_env = E, loc_Y_hat_df = Y_hat_df1, loc_S_df = S_df,
                            loc_Y_df = Y_df1, loc_intervals_method = intervals_method,
                            loc_num_samples = num_samples, loc_seed = seed,
                            loc_is_balanced = is_balanced, loc_start = start\<rparr>
                   in case reconcilers_loop C
                             (zip (self_reconcilers (w_self W2)) (self_orig_reconcilers (w_self W2)))
                             \<lparr>world = W2, Y_tilde_df = Y_hat_df1, reconciler_args = args\<rparr> of
                        (Inl e, r) \<Rightarrow> (Inl e, world r)
                      | (Inr u, r) \<Rightarrow> (Inr (Y_tilde_df r), world r))))"

text \<open>\<^verbatim>\<open>df.columns = names\<close> raises on another number of names; \<^verbatim>\<open>pd.concat(frames,
  axis=0)\<close> of frames with the same columns raises on an empty list.\<close>

definition rename_columns :: "frame \<Rightarrow> string list \<Rightarrow> error + frame" where
  "rename_columns df names =
     (if length names \<noteq> length (columns df) then Inl ValueError
      else Inr (df\<lparr>columns := zip names (map snd (columns df))\<rparr>))"

definition concat_rows :: "frame list \<Rightarrow> error + frame" where
  "concat_rows frames =
     (case frames of
        [] \<Rightarrow> Inl ValueError
      | f # fs \<Rightarrow>
          Inr \<lparr>index = concat (map index frames),
               columns = map (\<lambda>(j, n). (n, concat (map (\<lambda>g. snd (columns g ! j)) frames)))
                           (zip [0..<length (columns f)] (col_names f))\<rparr>)"

text \<open>The loop of \<^verbatim>\<open>bootstrap_reconcile\<close>, lines 379 to 394. \<^verbatim>\<open>first_columns\<close> is
  unbound until the seed 0 binds it.\<close>

fun seeds_loop ::
  "env \<Rightarrow> frame \<Rightarrow> sframe \<Rightarrow> (string \<times> string list) list \<Rightarrow> frame option \<Rightarrow> string \<Rightarrow> int
    \<Rightarrow> int list \<Rightarrow> string list option \<Rightarrow> frame list \<Rightarrow> world \<Rightarrow> (error + frame list) \<times> world" where
  "seeds_loop E Y_hat_df S_df tags Y_df intervals_method num_samples [] first_columns Y_tilde_list W =
     (Inr Y_tilde_list, W)"
| "seeds_loop E Y_hat_df S_df tags Y_df intervals_method num_samples (seed # seeds) first_columns
       Y_tilde_list W =
     (case reconcile E W Y_hat_df S_df tags Y_df intervals_method num_samples seed False False of
        (Inl e, W1) \<Rightarrow> (Inl e, W1)
      | (Inr Y_tilde_df0, W1) \<Rightarrow>
          (case set_col Y_tilde_df0 ''seed''
                  (replicate (length (index Y_tilde_df0)) (CNum (real_of_int seed))) of
             Inl e \<Rightarrow> (Inl e, W1)
           | Inr Y_tilde_df1 \<Rightarrow>
               (case (if seed = 0 then Some (col_names Y_tilde_df1) else first_columns) of
                  None \<Rightarrow> (Inl (NameError ''first_columns''), W1)
                | Some cols \<Rightarrow>
                    (case rename_columns Y_tilde_df1 cols of
                       Inl e \<Rightarrow> (Inl e, W1)
                     | Inr Y_tilde_df2 \<Rightarrow>
                         seeds_loop E Y_hat_df S_df tags Y_df intervals_method num_samples seeds
                           (Some cols) (Y_tilde_list @ [Y_tilde_df2]) W1))))"

text \<open>\<^verbatim>\<open>bootstrap_reconcile\<close>, lines 337 to 400. Its own call of \<^verbatim>\<open>_prepare_fit\<close> passes
  no level.\<close>

definition bootstrap_reconcile ::
  "env \<Rightarrow> world \<Rightarrow> frame \<Rightarrow> sframe \<Rightarrow> (string \<times> string list) list \<Rightarrow> frame option \<Rightarrow> string
    \<Rightarrow> int \<Rightarrow> int \<Rightarrow> bool \<Rightarrow> (error + frame) \<times> world" where
  "bootstrap_reconcile E W Y_hat_df S_df tags Y_df intervals_method num_samples num_seeds sort_df =
     (case prepare_fit (w_self W) Y_hat_df S_df Y_df None intervals_method sort_df of
        Inl e \<Rightarrow> (Inl e, W)
      | Inr (Y_hat_df1, S_df1, Y_df1, model_names) \<Rightarrow>
          (let W1 = W\<lparr>w_self := (w_self W)\<lparr>self_model_names := Some model_names\<rparr>\<rparr>
           in case seeds_loop E Y_hat_df1 S_df1 tags Y_df1 intervals_method num_samples
                     (map int [0..<nat num_seeds]) None [] W1 of
                (Inl e, W2) \<Rightarrow> (Inl e, W2)
              | (Inr Y_tilde_list, W2) \<Rightarrow> (concat_rows Y_tilde_list, W2)))"

section \<open>The column layout a dispatch leaves\<close>

text \<open>
  What one (reconciler, model) pair that runs to its end adds, stated on names alone:
  the mean column unless a column of that name exists, then the interval names of the
  sorted levels, then the sample names. \<open>assemble\<close> folds the pairs in dispatch order
  over the column names, the instance and the count of clock readings.
\<close>

definition add_name :: "string list \<Rightarrow> string \<Rightarrow> string list" where
  "add_name names name = (if name \<in> set names then names else names @ [name])"

definition interval_names :: "env \<Rightarrow> string \<Rightarrow> num list \<Rightarrow> string list" where
  "interval_names E recmodel_name lv = lo_names E recmodel_name lv @ hi_names E recmodel_name lv"

definition pair_columns :: "env \<Rightarrow> string \<Rightarrow> num list option \<Rightarrow> int \<Rightarrow> string list" where
  "pair_columns E recmodel_name level num_samples =
     (case level of
        None \<Rightarrow> []
      | Some lv \<Rightarrow>
          interval_names E recmodel_name lv
            @ (if num_samples > 0 then sample_names recmodel_name num_samples else []))"

text \<open>What the pair writes on the instance: its interval names, its sample names and
  its execution time \<open>t\<close>, each only into a registry that exists.\<close>

definition pair_self :: "env \<Rightarrow> string \<Rightarrow> num list option \<Rightarrow> int \<Rightarrow> real \<Rightarrow> hrec \<Rightarrow> hrec" where
  "pair_self E recmodel_name level num_samples t self =
     self\<lparr>self_level_names :=
            (case level of
               None \<Rightarrow> self_level_names self
             | Some lv \<Rightarrow> map_option (AList.update recmodel_name (interval_names E recmodel_name lv))
                          (self_level_names self)),
          self_sample_names :=
            (if level \<noteq> None \<and> num_samples > 0
             then map_option (AList.update recmodel_name (sample_names recmodel_name num_samples))
                    (self_sample_names self)
             else self_sample_names self),
          self_execution_times :=
            map_option (AList.update recmodel_name t) (self_execution_times self)\<rparr>"

fun assemble ::
  "env \<Rightarrow> num list option \<Rightarrow> int \<Rightarrow> real \<Rightarrow> string list \<Rightarrow> string list \<times> hrec \<times> nat
    \<Rightarrow> string list \<times> hrec \<times> nat" where
  "assemble E L ns start [] obs = obs"
| "assemble E L ns start (rm # rms) obs =
     (case obs of (names, self, k) \<Rightarrow>
        assemble E L ns start rms
          (add_name names rm @ pair_columns E rm L ns,
           pair_self E rm L ns (clock E k - start) self, Suc k))"

text \<open>The column names alone.\<close>

fun layout :: "env \<Rightarrow> num list option \<Rightarrow> int \<Rightarrow> string list \<Rightarrow> string list \<Rightarrow> string list" where
  "layout E L ns [] names = names"
| "layout E L ns (rm # rms) names = layout E L ns rms (add_name names rm @ pair_columns E rm L ns)"

text \<open>The names \<^verbatim>\<open>{model}/{reconciler}\<close> in dispatch order: reconcilers outermost,
  models innermost.\<close>

definition fn_name_of :: "env \<Rightarrow> reconciler \<Rightarrow> string" where
  "fn_name_of E fn = (case build_fn_name E fn of Inl e \<Rightarrow> [] | Inr name \<Rightarrow> name)"

definition recmodel_names :: "env \<Rightarrow> reconciler list \<Rightarrow> string list \<Rightarrow> string list" where
  "recmodel_names E fns model_names =
     concat (map (\<lambda>fn. map (\<lambda>m. m @ ''/'' @ fn_name_of E fn) model_names) fns)"

text \<open>The strategies line 128 accepts, and the instance as lines 225 and 257 to 259
  leave it before the loops.\<close>

definition valid_method :: "string \<Rightarrow> bool" where
  "valid_method m = (m \<in> set [''bootstrap'', ''normality'', ''permbu''])"

definition reset_self :: "string list \<Rightarrow> hrec \<Rightarrow> hrec" where
  "reset_self model_names self =
     self\<lparr>self_model_names := Some model_names, self_execution_times := Some [],
          self_level_names := Some [], self_sample_names := Some []\<rparr>"

section \<open>The errors of alignment and validation\<close>




section \<open>The runs of the bootstrap orchestrator\<close>

text \<open>
  What \<^verbatim>\<open>bootstrap_reconcile\<close> is to do, on the seeds in order: one call of
  \<^verbatim>\<open>reconcile\<close> per seed, each from the world the call before left, each returning a
  frame that then gets the column \<^verbatim>\<open>seed\<close>. \<open>renamed\<close> is the positional renaming of
  the columns of a frame.
\<close>

definition seed_column :: "frame \<Rightarrow> int \<Rightarrow> error + frame" where
  "seed_column df seed = set_col df ''seed'' (replicate (length (index df)) (CNum (real_of_int seed)))"

definition renamed :: "string list \<Rightarrow> frame \<Rightarrow> frame" where
  "renamed names df = df\<lparr>columns := zip names (map snd (columns df))\<rparr>"

inductive seed_runs ::
  "env \<Rightarrow> frame \<Rightarrow> sframe \<Rightarrow> (string \<times> string list) list \<Rightarrow> frame option \<Rightarrow> string \<Rightarrow> int
    \<Rightarrow> int list \<Rightarrow> world \<Rightarrow> world \<Rightarrow> frame list \<Rightarrow> bool"
  for E Y_hat_df S_df tags Y_df intervals_method num_samples where
    no_seed: "seed_runs E Y_hat_df S_df tags Y_df intervals_method num_samples [] W W []"
  | next_seed:
      "reconcile E W Y_hat_df S_df tags Y_df intervals_method num_samples seed False False
         = (Inr Y_tilde, W1)
       \<Longrightarrow> seed_column Y_tilde seed = Inr Y_seeded
       \<Longrightarrow> seed_runs E Y_hat_df S_df tags Y_df intervals_method num_samples seeds W1 W2 frames
       \<Longrightarrow> seed_runs E Y_hat_df S_df tags Y_df intervals_method num_samples (seed # seeds) W W2
             (Y_seeded # frames)"

section \<open>Concrete inputs\<close>

text \<open>
  A runtime for evaluating the definitions at concrete inputs. Its float \<^verbatim>\<open>repr\<close> and
  its normal quantile agree with Python and scipy on the arguments used below
  (\<^verbatim>\<open>repr(2e-8)\<close>, \<^verbatim>\<open>repr(0.01)\<close>, \<^verbatim>\<open>norm.ppf(0.9)\<close>); the clock advances by one
  second per reading.
\<close>

definition env0 :: env where
  "env0 =
     \<lparr>float_repr = (\<lambda>r. if r = 2 / 10 ^ 8 then ''2e-08''
                         else if r = 1 / 100 then ''0.01'' else ''nan''),
      ppf = (\<lambda>p. if p = 9 / 10 then 12815515655446004 / 10 ^ 16 else 0),
      clock = real\<rparr>"

text \<open>Entry points of a reconciler that is only named, never run.\<close>

definition no_call :: "kwargs \<Rightarrow> num list option \<Rightarrow> error + fcsts" where
  "no_call kwargs level = Inl (ReconcilerError ''not run'')"

definition no_fit :: "kwargs \<Rightarrow> error + fitted" where
  "no_fit kwargs = Inl (ReconcilerError ''not run'')"

text \<open>\<^verbatim>\<open>ERM(method='closed')\<close>, whose \<^verbatim>\<open>lambda_reg\<close> is the constructor's default
  \<^verbatim>\<open>1e-2\<close>; a \<^verbatim>\<open>MinTraceSparse(method='mint_shrink')\<close> with the ridge \<^verbatim>\<open>2e-8\<close> that
  line 32 treats as the default; and \<^verbatim>\<open>MinTrace(method='mint_shrink')\<close> with a given
  \<^verbatim>\<open>nonnegative\<close> and \<^verbatim>\<open>num_threads\<close>.\<close>

definition erm :: reconciler where
  "erm =
     \<lparr>type_name = ''ERM'',
      dict = [(''method'', PStr ''closed''), (''lambda_reg'', PNum (PyFloat (1 / 100))),
              (''insample'', PBool True)],
      insample_attr = True, is_sparse_method = False, parameters = [],
      fit_predict = no_call, fit = no_fit\<rparr>"

definition mintrace_shrink :: "string \<Rightarrow> pyval \<Rightarrow> int \<Rightarrow> reconciler" where
  "mintrace_shrink cls nonnegative num_threads =
     \<lparr>type_name = cls,
      dict = [(''method'', PStr ''mint_shrink''), (''nonnegative'', nonnegative),
              (''insample'', PBool True), (''mint_shr_ridge'', PNum (PyFloat (2 / 10 ^ 8))),
              (''num_threads'', PNum (PyInt num_threads))],
      insample_attr = True, is_sparse_method = False, parameters = [],
      fit_predict = no_call, fit = no_fit\<rparr>"

text \<open>
  A reconciler that accepts \<^verbatim>\<open>level\<close> and answers every call with a mean of one
  entry and two quantiles per level, and every sampling with one entry per sample: the
  shapes a hierarchy of one series with one timestamp needs.
\<close>

definition one_row_fcsts :: "num list option \<Rightarrow> error + fcsts" where
  "one_row_fcsts level =
     Inr \<lparr>mean = [Some 10],
          quantiles = (case level of
                         None \<Rightarrow> None
                       | Some lv \<Rightarrow> Some (replicate (2 * length lv) (Some 10)))\<rparr>"

definition bottom_up :: reconciler where
  "bottom_up =
     \<lparr>type_name = ''BottomUp'', dict = [], insample_attr = False, is_sparse_method = False,
      parameters = [''S'', ''y_hat'', ''idx_bottom'', ''level''],
      fit_predict = (\<lambda>kwargs level. one_row_fcsts level),
      fit = (\<lambda>kwargs. Inr \<lparr>predict = (\<lambda>S y_hat level. one_row_fcsts level),
                            sample = (\<lambda>n. Inr (replicate (nat n) (Some 10)))\<rparr>)\<rparr>"

text \<open>A hierarchy of the single series \<^verbatim>\<open>total\<close>, and base forecasts for one timestamp.\<close>

definition S_one :: sframe where
  "S_one = \<lparr>s_index = [''total''], s_columns = [''total''], s_values = [[Some 1]], s_sparse = False\<rparr>"

definition one_row :: "(string \<times> real) list \<Rightarrow> frame" where
  "one_row cols = \<lparr>index = [''total''], columns = map (\<lambda>(n, v). (n, [CNum v])) cols\<rparr>"

definition Y_hat_ets :: frame where
  "Y_hat_ets = one_row [(''ds'', 1), (''ETS'', 10), (''ETS-lo-80'', 8), (''ETS-hi-80'', 12)]"


definition Y_hat_global :: frame where
  "Y_hat_global = one_row [(''ds'', 1), (''global'', 10), (''global-hi-80'', 12)]"

definition Y_hat_seasonal :: frame where
  "Y_hat_seasonal =
     one_row [(''ds'', 1), (''Naive'', 10), (''SeasonalNaive'', 20),
              (''SeasonalNaive-lo-80'', 15), (''SeasonalNaive-hi-80'', 25)]"

text \<open>Historical values of the series, with the fitted values of \<^verbatim>\<open>ETS\<close>.\<close>

definition Y_one :: frame where
  "Y_one = one_row [(''ds'', 0), (''y'', 9), (''ETS'', 19 / 2)]"

definition y_hat_10 :: mat where
  "y_hat_10 = \<lparr>nrows = 1, ncols = 1, mdata = [Some 10]\<rparr>"

text \<open>The tag map of the hierarchy, and the frame a call returns: the base forecasts
  and the columns it adds.\<close>

definition tags_one :: "(string \<times> string list) list" where
  "tags_one = [(''Total'', [''total''])]"

definition out_ets :: "(string \<times> real) list \<Rightarrow> frame" where
  "out_ets added =
     one_row ([(''ds'', 1), (''ETS'', 10), (''ETS-lo-80'', 8), (''ETS-hi-80'', 12)] @ added)"

text \<open>The frame \<^verbatim>\<open>bootstrap_reconcile\<close> returns for two seeds.\<close>

definition out_two_seeds :: frame where
  "out_two_seeds =
     \<lparr>index = [''total'', ''total''],
      columns = map (\<lambda>(n, a, b). (n, [CNum a, CNum b]))
        [(''ds'', 1, 1), (''ETS'', 10, 10), (''ETS-lo-80'', 8, 8), (''ETS-hi-80'', 12, 12),
         (''ETS/BottomUp'', 10, 10), (''ETS/BottomUp-lo-80'', 10, 10),
         (''ETS/BottomUp-hi-80'', 10, 10), (''seed'', 0, 1)]\<rparr>"

text \<open>A fresh instance with the one reconciler, the caller's level list, no call made yet.\<close>

definition W0 :: "num list option \<Rightarrow> world" where
  "W0 level = \<lparr>w_self = init [bottom_up], w_level = level, w_ticks = 0, w_calls = []\<rparr>"



section \<open>A call that returns: what it leaves\<close>

lemma and_then_Inr:
  "and_then m f = (Inr y, r') \<longleftrightarrow> (\<exists>x r1. m = (Inr x, r1) \<and> f x r1 = (Inr y, r'))"
  by (cases m) (auto simp: and_then_def split: sum.splits)

lemma put_y_hat_frame:
  "put_y_hat C m r = (res, r') \<Longrightarrow> world r' = world r \<and> Y_tilde_df r' = Y_tilde_df r"
  by (auto simp: put_y_hat_def set_arg_def split: sum.splits)

lemma put_y_hat_insample_frame:
  "put_y_hat_insample C hf m r = (res, r') \<Longrightarrow> world r' = world r \<and> Y_tilde_df r' = Y_tilde_df r"
  by (auto simp: put_y_hat_insample_def set_arg_def split: sum.splits if_splits option.splits)

lemma put_level_args_frame:
  "put_level_args C hl m y r = (res, r') \<Longrightarrow> world r' = world r \<and> Y_tilde_df r' = Y_tilde_df r"
  by (auto simp: put_level_args_def set_arg_def split: sum.splits if_splits option.splits)

lemma invoke_frame:
  "invoke C fn rm r = (res, r') \<Longrightarrow>
     Y_tilde_df r' = Y_tilde_df r \<and> w_self (world r') = w_self (world r)
     \<and> w_level (world r') = w_level (world r) \<and> w_ticks (world r') = w_ticks (world r)"
  by (auto simp: invoke_def log_call_def Let_def split: sum.splits if_splits option.splits)

lemma set_col_names:
  "set_col df name vals = Inr df' \<Longrightarrow> col_names df' = add_name (col_names df) name \<and> index df' = index df"
  by (auto simp: set_col_def add_name_def col_names_def split: if_splits intro!: map_idI)

lemma put_mean_ok:
  "put_mean rm f r = (Inr u, r') \<Longrightarrow>
     world r' = world r \<and> col_names (Y_tilde_df r') = add_name (col_names (Y_tilde_df r)) rm
     \<and> index (Y_tilde_df r') = index (Y_tilde_df r)"
  by (auto simp: put_mean_def dest: set_col_names split: sum.splits)

lemma matrix_columns_names: "length names = ncols m \<Longrightarrow> map fst (matrix_columns names m) = names"
  by (simp add: matrix_columns_def) (rule nth_equalityI; simp)

lemma concat_columns_names:
  "concat_columns df names d = Inr df' \<Longrightarrow> col_names df' = col_names df @ names \<and> index df' = index df"
  by (auto simp: concat_columns_def col_names_def matrix_columns_names split: sum.splits if_splits)

lemma put_samples_ok:
  assumes "put_samples C rm rec r = (Inr u, r')"
  shows "col_names (Y_tilde_df r') = col_names (Y_tilde_df r)
            @ (if loc_num_samples C > 0 then sample_names rm (loc_num_samples C) else [])
    \<and> index (Y_tilde_df r') = index (Y_tilde_df r)
    \<and> w_level (world r') = w_level (world r)
    \<and> w_ticks (world r') = w_ticks (world r)
    \<and> w_self (world r') =
           (if loc_num_samples C > 0
            then (w_self (world r))\<lparr>self_sample_names :=
                   map_option (AList.update rm (sample_names rm (loc_num_samples C)))
                     (self_sample_names (w_self (world r)))\<rparr>
            else w_self (world r))"
  using assms
  by (auto simp: put_samples_def log_call_def update_self_def Let_def
           dest!: concat_columns_names split: if_splits option.splits sum.splits)

lemma put_intervals_ok:
  assumes "put_intervals C rm f rec r = (Inr u, r')" and "valid_method (loc_intervals_method C)"
  shows "col_names (Y_tilde_df r') = col_names (Y_tilde_df r)
            @ pair_columns (loc_env C) rm (map_option sort_level (w_level (world r))) (loc_num_samples C)
    \<and> index (Y_tilde_df r') = index (Y_tilde_df r)
    \<and> w_level (world r') = map_option sort_level (w_level (world r))
    \<and> w_ticks (world r') = w_ticks (world r)
    \<and> w_self (world r') =
           (pair_self (loc_env C) rm (map_option sort_level (w_level (world r))) (loc_num_samples C) t
              (w_self (world r)))\<lparr>self_execution_times := self_execution_times (w_self (world r))\<rparr>"
proof (cases "w_level (world r)")
  case None
  with assms show ?thesis
    by (simp add: put_intervals_def pair_columns_def pair_self_def)
next
  case (Some lv)
  let ?names = "interval_names (loc_env C) rm (sort_level lv)"
  let ?r1 = "update_self (\<lambda>self. self\<lparr>self_level_names :=
                 map_option (AList.update rm ?names) (self_level_names self)\<rparr>)
               (r\<lparr>world := (world r)\<lparr>w_level := Some (sort_level lv)\<rparr>\<rparr>)"
  from assms Some obtain q df where q: "quantiles f = Some q"
    and df: "concat_columns (Y_tilde_df ?r1) ?names q = Inr df"
    and ps: "put_samples C rm rec (?r1\<lparr>Y_tilde_df := df\<rparr>) = (Inr u, r')"
    by (auto simp: put_intervals_def Let_def valid_method_def interval_names_def
             split: option.splits sum.splits if_splits)
  from concat_columns_names [OF df] put_samples_ok [OF ps] Some show ?thesis
    by (simp add: update_self_def pair_columns_def pair_self_def)
qed

lemma record_time_eq:
  "world (record_time C rm r) =
     (world r)\<lparr>w_ticks := Suc (w_ticks (world r)),
                w_self := (w_self (world r))\<lparr>self_execution_times :=
                  map_option (AList.update rm (clock (loc_env C) (w_ticks (world r)) - loc_start C))
                    (self_execution_times (w_self (world r)))\<rparr>\<rparr>
   \<and> Y_tilde_df (record_time C rm r) = Y_tilde_df r"
  by (simp add: record_time_def update_self_def Let_def)

lemma model_step_ok:
  assumes ok: "model_step C fn fname m r = (Inr u, r')"
    and vm: "valid_method (loc_intervals_method C)"
  shows "col_names (Y_tilde_df r') =
           add_name (col_names (Y_tilde_df r)) (m @ ''/'' @ fname)
             @ pair_columns (loc_env C) (m @ ''/'' @ fname)
                 (map_option sort_level (w_level (world r))) (loc_num_samples C)
    \<and> index (Y_tilde_df r') = index (Y_tilde_df r)
    \<and> w_level (world r') = map_option sort_level (w_level (world r))
    \<and> w_ticks (world r') = Suc (w_ticks (world r))
    \<and> w_self (world r') =
         pair_self (loc_env C) (m @ ''/'' @ fname) (map_option sort_level (w_level (world r)))
           (loc_num_samples C) (clock (loc_env C) (w_ticks (world r)) - loc_start C) (w_self (world r))"
proof -
  let ?rm = "m @ ''/'' @ fname"
  from ok obtain y r1 r2 r3 fc rec r4 r5 r6 where
      s1: "put_y_hat C m r = (Inr y, r1)"
    and s2: "put_y_hat_insample C (''y_hat_insample'' \<in> set (parameters fn)) m r1 = (Inr (), r2)"
    and s3: "put_level_args C (''level'' \<in> set (parameters fn)) m y r2 = (Inr (), r3)"
    and s4: "invoke C fn ?rm r3 = (Inr (fc, rec), r4)"
    and s5: "put_mean ?rm fc r4 = (Inr (), r5)"
    and s6: "put_intervals C ?rm fc rec r5 = (Inr (), r6)"
    and s7: "r' = record_time C ?rm r6"
    by (auto simp: model_step_def Let_def and_then_Inr)
  note f1 = put_y_hat_frame [OF s1] and f2 = put_y_hat_insample_frame [OF s2]
    and f3 = put_level_args_frame [OF s3] and f4 = invoke_frame [OF s4]
    and f5 = put_mean_ok [OF s5]
    and f6 = put_intervals_ok [OF s6 vm, of "clock (loc_env C) (w_ticks (world r)) - loc_start C"]
  have w5: "w_level (world r5) = w_level (world r)" "w_ticks (world r5) = w_ticks (world r)"
    "w_self (world r5) = w_self (world r)"
    using f1 f2 f3 f4 f5 by simp_all
  have n5: "col_names (Y_tilde_df r5) = add_name (col_names (Y_tilde_df r)) ?rm"
    "index (Y_tilde_df r5) = index (Y_tilde_df r)"
    using f1 f2 f3 f4 f5 by simp_all
  show ?thesis
    using f6 w5 n5 by (simp add: s7 record_time_eq pair_self_def)
qed

lemma sort_level_idem: "sort_level (sort_level lv) = sort_level lv"
  by (simp add: sort_level_def sort_key_id_if_sorted)

lemma sort_level_opt_idem: "map_option sort_level (map_option sort_level L) = map_option sort_level L"
  by (cases L) (simp_all add: sort_level_idem)

lemma assemble_append:
  "assemble E L ns start (xs @ ys) obs = assemble E L ns start ys (assemble E L ns start xs obs)"
  by (induction xs arbitrary: obs) (auto split: prod.splits)

lemma models_loop_ok:
  assumes "models_loop C fn fname ms r = (Inr u, r')"
    and "valid_method (loc_intervals_method C)"
  shows "(col_names (Y_tilde_df r'), w_self (world r'), w_ticks (world r')) =
           assemble (loc_env C) (map_option sort_level (w_level (world r))) (loc_num_samples C)
             (loc_start C) (map (\<lambda>m. m @ ''/'' @ fname) ms)
             (col_names (Y_tilde_df r), w_self (world r), w_ticks (world r))
    \<and> index (Y_tilde_df r') = index (Y_tilde_df r)
    \<and> w_level (world r') = (if ms = [] then w_level (world r) else map_option sort_level (w_level (world r)))"
  using assms
proof (induction ms arbitrary: r)
  case Nil
  then show ?case by simp
next
  case (Cons m ms)
  from Cons.prems obtain r1 where s: "model_step C fn fname m r = (Inr (), r1)"
    and l: "models_loop C fn fname ms r1 = (Inr u, r')"
    by (auto simp: and_then_Inr)
  note a = model_step_ok [OF s Cons.prems(2)] and b = Cons.IH [OF l Cons.prems(2)]
  show ?case
    using a b by (simp add: sort_level_opt_idem)
qed

lemma assemble_model_names:
  "self_model_names (fst (snd (assemble E L ns start rms obs))) = self_model_names (fst (snd obs))"
  by (induction rms arbitrary: obs) (auto simp: pair_self_def split: prod.splits)

lemma reconciler_step_ok:
  assumes "reconciler_step C p r = (Inr u, r')"
    and "valid_method (loc_intervals_method C)"
    and "self_model_names (w_self (world r)) = Some mn"
  shows "(\<exists>fname. build_fn_name (loc_env C) (snd p) = Inr fname)
    \<and> (col_names (Y_tilde_df r'), w_self (world r'), w_ticks (world r')) =
           assemble (loc_env C) (map_option sort_level (w_level (world r))) (loc_num_samples C)
             (loc_start C) (map (\<lambda>m. m @ ''/'' @ fn_name_of (loc_env C) (snd p)) mn)
             (col_names (Y_tilde_df r), w_self (world r), w_ticks (world r))
    \<and> index (Y_tilde_df r') = index (Y_tilde_df r)
    \<and> w_level (world r') = (if mn = [] then w_level (world r) else map_option sort_level (w_level (world r)))"
proof -
  from assms(1,3) obtain fname where n: "build_fn_name (loc_env C) (snd p) = Inr fname"
    and l: "models_loop C (fst p) fname mn
              (set_arg ''S'' (if is_sparse_method (fst p) then S_for_sparse (loc_S_df C)
                              else AMat (s_matrix (loc_S_df C))) r) = (Inr u, r')"
    by (auto simp: reconciler_step_def Let_def set_arg_def split: sum.splits option.splits)
  from models_loop_ok [OF l assms(2)] n show ?thesis
    by (simp add: set_arg_def fn_name_of_def)
qed

lemma reconcilers_loop_ok:
  assumes "reconcilers_loop C ps r = (Inr u, r')"
    and "valid_method (loc_intervals_method C)"
    and "self_model_names (w_self (world r)) = Some mn"
  shows "list_all (\<lambda>p. \<exists>fname. build_fn_name (loc_env C) (snd p) = Inr fname) ps
    \<and> (col_names (Y_tilde_df r'), w_self (world r'), w_ticks (world r')) =
           assemble (loc_env C) (map_option sort_level (w_level (world r))) (loc_num_samples C)
             (loc_start C) (recmodel_names (loc_env C) (map snd ps) mn)
             (col_names (Y_tilde_df r), w_self (world r), w_ticks (world r))
    \<and> index (Y_tilde_df r') = index (Y_tilde_df r)
    \<and> w_level (world r') =
         (if recmodel_names (loc_env C) (map snd ps) mn = [] then w_level (world r)
          else map_option sort_level (w_level (world r)))"
  using assms
proof (induction ps arbitrary: r)
  case Nil
  then show ?case by (simp add: recmodel_names_def)
next
  case (Cons p ps)
  from Cons.prems(1) obtain r1 where s: "reconciler_step C p r = (Inr (), r1)"
    and l: "reconcilers_loop C ps r1 = (Inr u, r')"
    by (auto simp: and_then_Inr)
  note a = reconciler_step_ok [OF s Cons.prems(2,3)]
  have m1: "self_model_names (w_self (world r1)) = Some mn"
    using a Cons.prems(3)
      assemble_model_names [of "loc_env C" "map_option sort_level (w_level (world r))"
        "loc_num_samples C" "loc_start C" "map (\<lambda>m. m @ ''/'' @ fn_name_of (loc_env C) (snd p)) mn"
        "(col_names (Y_tilde_df r), w_self (world r), w_ticks (world r))"]
    by (metis fst_conv snd_conv)
  note b = Cons.IH [OF l Cons.prems(2) m1]
  have L1: "map_option sort_level (w_level (world r1)) = map_option sort_level (w_level (world r))"
    using a by (simp add: sort_level_opt_idem)
  show ?case
    using a b L1
    by (auto simp: recmodel_names_def assemble_append sort_level_opt_idem)
qed

lemma check_inputs_valid:
  "check_inputs self Yh S Yd level m = Inr x \<Longrightarrow> valid_method m"
  by (auto simp: check_inputs_def valid_method_def split: if_splits)

lemma prepare_fit_valid:
  "prepare_fit self Yh S Yd level m sort_df = Inr x \<Longrightarrow> valid_method m"
  by (auto simp: prepare_fit_def split: if_splits sum.splits option.splits dest: check_inputs_valid)

lemma reconcile_ok:
  assumes ok: "reconcile E W Yh S tags Yd m ns seed sort_df bal = (Inr out, W')"
  shows "\<exists>Yh1 S1 Yd1 mn.
           prepare_fit (w_self W) Yh S Yd (w_level W) m sort_df = Inr (Yh1, S1, Yd1, mn)
         \<and> list_all (\<lambda>p. \<exists>fname. build_fn_name E (snd p) = Inr fname)
               (zip (self_reconcilers (w_self W)) (self_orig_reconcilers (w_self W)))
         \<and> (col_names out, w_self W', w_ticks W') =
              assemble E (map_option sort_level (w_level W)) ns (clock E (w_ticks W))
                (recmodel_names E
                   (map snd (zip (self_reconcilers (w_self W)) (self_orig_reconcilers (w_self W)))) mn)
                (col_names Yh1, reset_self mn (w_self W), Suc (w_ticks W))
         \<and> index out = index Yh1
         \<and> w_level W' =
              (if recmodel_names E
                    (map snd (zip (self_reconcilers (w_self W)) (self_orig_reconcilers (w_self W)))) mn = []
               then w_level W else map_option sort_level (w_level W))"
proof -
  from ok obtain Yh1 S1 Yd1 mn where pf:
    "prepare_fit (w_self W) Yh S Yd (w_level W) m sort_df = Inr (Yh1, S1, Yd1, mn)"
    by (auto simp: reconcile_def split: sum.splits)
  let ?W1 = "W\<lparr>w_self := (w_self W)\<lparr>self_model_names := Some mn\<rparr>\<rparr>"
  from ok pf obtain args where ia: "initial_args S S1 tags Yd1 bal = Inr args"
    by (auto simp: reconcile_def Let_def split: sum.splits)
  let ?W2 = "?W1\<lparr>w_ticks := Suc (w_ticks ?W1),
               w_self := (w_self ?W1)\<lparr>self_execution_times := Some [],
                 self_level_names := Some [], self_sample_names := Some []\<rparr>\<rparr>"
  let ?C = "\<lparr>loc_env = E, loc_Y_hat_df = Yh1, loc_S_df = S1, loc_Y_df = Yd1,
             loc_intervals_method = m, loc_num_samples = ns, loc_seed = seed,
             loc_is_balanced = bal, loc_start = clock E (w_ticks ?W1)\<rparr>"
  let ?r0 = "\<lparr>world = ?W2, Y_tilde_df = Yh1, reconciler_args = args\<rparr>"
  from ok pf ia obtain u r where
    lp: "reconcilers_loop ?C (zip (self_reconcilers (w_self ?W2)) (self_orig_reconcilers (w_self ?W2))) ?r0
          = (Inr u, r)"
    and out: "out = Y_tilde_df r" and W': "W' = world r"
    by (auto simp: reconcile_def Let_def split: sum.splits prod.splits)
  have vm: "valid_method (loc_intervals_method ?C)"
    using prepare_fit_valid [OF pf] by simp
  have mn: "self_model_names (w_self (world ?r0)) = Some mn" by simp
  from reconcilers_loop_ok [OF lp vm mn] pf show ?thesis
    by (simp add: out W' reset_self_def)
qed

lemma sublist_prefix_trans:
  assumes "sublist xs ys" and "prefix ys zs"
  shows "sublist xs zs"
proof -
  from assms obtain ps ss t where "ys = ps @ xs @ ss" and "zs = ys @ t"
    by (auto simp: sublist_def prefix_def)
  then have "zs = ps @ xs @ (ss @ t)" by simp
  then show ?thesis unfolding sublist_def by blast
qed

lemma assemble_prefix: "prefix (fst obs) (fst (assemble E L ns start rms obs))"
proof (induction rms arbitrary: obs)
  case Nil
  show ?case by simp
next
  case (Cons rm rms)
  obtain names self k where o: "obs = (names, self, k)" by (cases obs)
  have "prefix names (add_name names rm @ pair_columns E rm L ns)"
    by (simp add: add_name_def)
  from prefix_order.trans [OF this Cons.IH [of "(add_name names rm @ pair_columns E rm L ns,
      pair_self E rm L ns (clock E k - start) self, Suc k)", simplified]]
  show ?case by (simp add: o)
qed

lemma assemble_sublist:
  "rm \<in> set rms \<Longrightarrow> sublist (pair_columns E rm L ns) (fst (assemble E L ns start rms obs))"
proof (induction rms arbitrary: obs)
  case Nil
  then show ?case by simp
next
  case (Cons a rms)
  obtain names self k where o: "obs = (names, self, k)" by (cases obs)
  let ?o1 = "(add_name names a @ pair_columns E a L ns, pair_self E a L ns (clock E k - start) self, Suc k)"
  show ?case
  proof (cases "rm \<in> set rms")
    case True
    from Cons.IH [OF True, of ?o1] show ?thesis by (simp add: o)
  next
    case False
    with Cons.prems have e: "rm = a" by simp
    have "sublist (pair_columns E a L ns) (fst ?o1)" by simp
    moreover have "prefix (fst ?o1) (fst (assemble E L ns start rms ?o1))"
      by (rule assemble_prefix)
    ultimately have "sublist (pair_columns E a L ns) (fst (assemble E L ns start rms ?o1))"
      by (rule sublist_prefix_trans)
    then show ?thesis by (simp add: o e)
  qed
qed

lemma assemble_level_names:
  assumes "self_level_names (fst (snd obs)) = Some reg"
  shows "\<exists>reg'. self_level_names (fst (snd (assemble E (Some lv) ns start rms obs))) = Some reg'
           \<and> (\<forall>rm. map_of reg' rm = (if rm \<in> set rms then Some (interval_names E rm lv) else map_of reg rm))"
  using assms
proof (induction rms arbitrary: obs reg rule: rev_induct)
  case Nil
  then show ?case by simp
next
  case (snoc a rms)
  from snoc.IH [OF snoc.prems] obtain reg1 where
    r1: "self_level_names (fst (snd (assemble E (Some lv) ns start rms obs))) = Some reg1"
    and m1: "\<forall>rm. map_of reg1 rm = (if rm \<in> set rms then Some (interval_names E rm lv) else map_of reg rm)"
    by blast
  obtain names self k where o: "assemble E (Some lv) ns start rms obs = (names, self, k)"
    by (cases "assemble E (Some lv) ns start rms obs")
  show ?case
    using r1 m1 by (auto simp: assemble_append o pair_self_def update_conv')
qed

lemma assemble_sample_names:
  assumes "self_sample_names (fst (snd obs)) = Some reg" and "0 < ns"
  shows "\<exists>reg'. self_sample_names (fst (snd (assemble E (Some lv) ns start rms obs))) = Some reg'
           \<and> (\<forall>rm. map_of reg' rm = (if rm \<in> set rms then Some (sample_names rm ns) else map_of reg rm))"
  using assms
proof (induction rms arbitrary: obs reg rule: rev_induct)
  case Nil
  then show ?case by simp
next
  case (snoc a rms)
  from snoc.IH [OF snoc.prems] obtain reg1 where
    r1: "self_sample_names (fst (snd (assemble E (Some lv) ns start rms obs))) = Some reg1"
    and m1: "\<forall>rm. map_of reg1 rm = (if rm \<in> set rms then Some (sample_names rm ns) else map_of reg rm)"
    by blast
  obtain names self k where o: "assemble E (Some lv) ns start rms obs = (names, self, k)"
    by (cases "assemble E (Some lv) ns start rms obs")
  show ?case
    using r1 m1 snoc.prems(2) by (auto simp: assemble_append o pair_self_def update_conv')
qed

lemma assemble_no_samples:
  assumes "L = None \<or> ns \<le> 0"
  shows "assemble E L ns start rms obs = assemble E L 0 start rms obs"
  using assms
proof (induction rms arbitrary: obs)
  case Nil
  then show ?case by simp
next
  case (Cons a rms)
  obtain names self k where o: "obs = (names, self, k)" by (cases obs)
  have pc: "pair_columns E a L ns = pair_columns E a L 0"
    using Cons.prems by (auto simp: pair_columns_def split: option.splits)
  have ps: "pair_self E a L ns t self = pair_self E a L 0 t self" for t
    using Cons.prems by (auto simp: pair_self_def)
  show ?case
    using Cons.IH [OF Cons.prems] by (simp add: o pc ps)
qed

lemma assemble_zero_sample_names:
  "self_sample_names (fst (snd (assemble E L 0 start rms obs))) = self_sample_names (fst (snd obs))"
  by (induction rms arbitrary: obs) (auto simp: pair_self_def split: prod.splits)


section \<open>The reconciler name resolver: claim C5\<close>

lemma join_mid:
  "join sep (A @ t # B) = concat (map (\<lambda>a. a @ sep) A) @ t @ concat (map (\<lambda>b. sep @ b) B)"
proof (induction A)
  case Nil
  show ?case by (induction B arbitrary: t) simp_all
next
  case (Cons a A)
  then show ?case by (cases A) simp_all
qed

lemma build_fn_name_eq:
  assumes "args_to_remove fn = Inr rm"
  shows "build_fn_name E fn =
           Inr (type_name fn @ (if kept_params rm (dict fn) = [] then []
                                else ''_'' @ join ''_'' (map (token E) (kept_params rm (dict fn)))))"
  using assms by (simp add: build_fn_name_def name_tokens_def)

lemma args_to_remove_cases:
  assumes "args_to_remove fn = Inr rm"
  shows "rm = [''insample'', ''num_threads'']
           @ (if truthy (case map_of (dict fn) ''nonnegative'' of None \<Rightarrow> PBool False | Some v \<Rightarrow> v)
              then [] else [''nonnegative''])
           @ (if type_name fn = ''MinTrace'' \<and> map_of (dict fn) ''method'' = Some (PStr ''mint_shrink'')
                   \<and> (\<exists>r. map_of (dict fn) ''mint_shr_ridge'' = Some r \<and> py_eq_float r (2 / 10 ^ 8))
              then [''mint_shr_ridge''] else [])"
  using assms
  by (auto simp: args_to_remove_def Let_def split: if_splits option.splits)

lemma kept_append:
  "kept_params rm (ps @ p # qs) =
     kept_params rm ps @ (if fst p \<in> set rm then [] else [p]) @ kept_params rm qs"
  by (auto simp: kept_params_def)

lemma name_changes:
  assumes a: "args_to_remove fn = Inr rm" and a': "args_to_remove fn' = Inr rm"
    and t: "type_name fn' = type_name fn"
    and d: "dict fn = ps @ (n, v) # qs" and d': "dict fn' = ps @ (n, v') # qs"
    and n: "n \<notin> set rm" and s: "py_str E v \<noteq> py_str E v'"
  shows "build_fn_name E fn' \<noteq> build_fn_name E fn"
proof -
  let ?A = "map (token E) (kept_params rm ps)" and ?B = "map (token E) (kept_params rm qs)"
  have k: "map (token E) (kept_params rm (dict fn)) = ?A @ token E (n, v) # ?B"
    and k': "map (token E) (kept_params rm (dict fn')) = ?A @ token E (n, v') # ?B"
    using n by (simp_all add: d d' kept_append)
  have ne: "kept_params rm (dict fn) \<noteq> []" "kept_params rm (dict fn') \<noteq> []"
    using n by (simp_all add: d d' kept_append)
  show ?thesis
    using s ne
    by (simp add: build_fn_name_eq [OF a] build_fn_name_eq [OF a'] t k k' join_mid token_def)
qed

text \<open>
  Claim C5, as the code has it. The resolved name is the type name followed, when an
  attribute is kept, by an underscore and the \<open>name-value\<close> tokens of the kept attributes
  joined by underscores. \<^verbatim>\<open>insample\<close> and \<^verbatim>\<open>num_threads\<close> are never kept;
  \<^verbatim>\<open>nonnegative\<close> is removed exactly when it is absent or falsy; \<^verbatim>\<open>mint_shr_ridge\<close> is
  removed exactly for the type \<^verbatim>\<open>MinTrace\<close> with method \<^verbatim>\<open>mint_shrink\<close> and the value
  \<^verbatim>\<open>2e-8\<close>; every other attribute is kept, whatever its value. Two instances of one type
  with the same kept attributes resolve to the same name, and replacing the value of one
  kept attribute by a value that renders differently changes the name.
\<close>

theorem resolved_name_of_kept_attributes:
  assumes rm: "args_to_remove fn = Inr rm"
  shows "build_fn_name E fn =
           Inr (type_name fn @ (if kept_params rm (dict fn) = [] then []
                                else ''_'' @ join ''_'' (map (token E) (kept_params rm (dict fn)))))
    \<and> ''insample'' \<notin> fst ` set (kept_params rm (dict fn))
    \<and> ''num_threads'' \<notin> fst ` set (kept_params rm (dict fn))
    \<and> (''nonnegative'' \<in> set rm \<longleftrightarrow>
          \<not> truthy (case map_of (dict fn) ''nonnegative'' of None \<Rightarrow> PBool False | Some v \<Rightarrow> v))
    \<and> (''mint_shr_ridge'' \<in> set rm \<longleftrightarrow>
          type_name fn = ''MinTrace'' \<and> map_of (dict fn) ''method'' = Some (PStr ''mint_shrink'')
          \<and> (\<exists>r. map_of (dict fn) ''mint_shr_ridge'' = Some r \<and> py_eq_float r (2 / 10 ^ 8)))
    \<and> (\<forall>p \<in> set (dict fn).
          fst p \<notin> set [''insample'', ''num_threads'', ''nonnegative'', ''mint_shr_ridge'']
          \<longrightarrow> p \<in> set (kept_params rm (dict fn)))
    \<and> (\<forall>fn' rm'. args_to_remove fn' = Inr rm' \<and> type_name fn' = type_name fn
          \<and> kept_params rm' (dict fn') = kept_params rm (dict fn)
          \<longrightarrow> build_fn_name E fn' = build_fn_name E fn)
    \<and> (\<forall>fn' ps n v v' qs. args_to_remove fn' = Inr rm \<and> type_name fn' = type_name fn
          \<and> dict fn = ps @ (n, v) # qs \<and> dict fn' = ps @ (n, v') # qs
          \<and> n \<notin> set rm \<and> py_str E v \<noteq> py_str E v'
          \<longrightarrow> build_fn_name E fn' \<noteq> build_fn_name E fn)"
proof -
  note c = args_to_remove_cases [OF rm]
  have 1: "''insample'' \<in> set rm" "''num_threads'' \<in> set rm"
    by (subst c, simp)+
  have 2: "set rm \<subseteq> set [''insample'', ''num_threads'', ''nonnegative'', ''mint_shr_ridge'']"
    by (subst c) auto
  have 3: "''nonnegative'' \<in> set rm \<longleftrightarrow>
          \<not> truthy (case map_of (dict fn) ''nonnegative'' of None \<Rightarrow> PBool False | Some v \<Rightarrow> v)"
    by (subst c) auto
  have 4: "''mint_shr_ridge'' \<in> set rm \<longleftrightarrow>
          type_name fn = ''MinTrace'' \<and> map_of (dict fn) ''method'' = Some (PStr ''mint_shrink'')
          \<and> (\<exists>r. map_of (dict fn) ''mint_shr_ridge'' = Some r \<and> py_eq_float r (2 / 10 ^ 8))"
    by (subst c) auto
  have 5: "\<forall>p \<in> set (dict fn).
          fst p \<notin> set [''insample'', ''num_threads'', ''nonnegative'', ''mint_shr_ridge'']
          \<longrightarrow> p \<in> set (kept_params rm (dict fn))"
    using 2 by (auto simp: kept_params_def)
  have 6: "''insample'' \<notin> fst ` set (kept_params rm (dict fn))"
    "''num_threads'' \<notin> fst ` set (kept_params rm (dict fn))"
    using 1 by (auto simp: kept_params_def)
  have 7: "\<forall>fn' rm'. args_to_remove fn' = Inr rm' \<and> type_name fn' = type_name fn
          \<and> kept_params rm' (dict fn') = kept_params rm (dict fn)
          \<longrightarrow> build_fn_name E fn' = build_fn_name E fn"
    by (auto simp: build_fn_name_eq [OF rm] build_fn_name_eq)
  have 8: "\<forall>fn' ps n v v' qs. args_to_remove fn' = Inr rm \<and> type_name fn' = type_name fn
          \<and> dict fn = ps @ (n, v) # qs \<and> dict fn' = ps @ (n, v') # qs
          \<and> n \<notin> set rm \<and> py_str E v \<noteq> py_str E v'
          \<longrightarrow> build_fn_name E fn' \<noteq> build_fn_name E fn"
    using name_changes [OF rm] by blast
  show ?thesis
    using build_fn_name_eq [OF rm, of E] 3 4 5 6 7 8 by blast
qed

lemma mintrace_remove:
  "args_to_remove (mintrace_shrink ''MinTrace'' v k) =
     Inr ([''insample'', ''num_threads''] @ (if truthy v then [] else [''nonnegative'']) @ [''mint_shr_ridge''])"
  by (simp add: args_to_remove_def mintrace_shrink_def)

theorem resolved_name_witness:
  "build_fn_name env0 (mintrace_shrink ''MinTrace'' (PBool True) 1) =
     Inr ''MinTrace_method-mint_shrink_nonnegative-True''
   \<and> build_fn_name env0 (mintrace_shrink ''MinTrace'' (PBool True) 4) =
       build_fn_name env0 (mintrace_shrink ''MinTrace'' (PBool True) 1)
   \<and> build_fn_name env0 (mintrace_shrink ''MinTrace'' (PNum (PyInt 1)) 1) \<noteq>
       build_fn_name env0 (mintrace_shrink ''MinTrace'' (PBool True) 1)"
proof -
  let ?fn = "mintrace_shrink ''MinTrace'' (PBool True) 1"
  let ?rm = "[''insample'', ''num_threads'', ''mint_shr_ridge'']"
  have rm: "args_to_remove ?fn = Inr ?rm" by (simp add: mintrace_remove)
  note t = resolved_name_of_kept_attributes [OF rm, of env0]
  have k: "kept_params ?rm (dict ?fn) = [(''method'', PStr ''mint_shrink''), (''nonnegative'', PBool True)]"
    by (simp add: kept_params_def mintrace_shrink_def)
  from t have "build_fn_name env0 ?fn =
           Inr (type_name ?fn @ (if kept_params ?rm (dict ?fn) = [] then []
                                else ''_'' @ join ''_'' (map (token env0) (kept_params ?rm (dict ?fn)))))"
    by blast
  then have a: "build_fn_name env0 ?fn = Inr ''MinTrace_method-mint_shrink_nonnegative-True''"
    by (simp add: k token_def) (simp add: mintrace_shrink_def)
  from t have d: "\<forall>fn' rm'. args_to_remove fn' = Inr rm' \<and> type_name fn' = type_name ?fn
          \<and> kept_params rm' (dict fn') = kept_params ?rm (dict ?fn)
          \<longrightarrow> build_fn_name env0 fn' = build_fn_name env0 ?fn"
    by blast
  have b: "build_fn_name env0 (mintrace_shrink ''MinTrace'' (PBool True) 4) = build_fn_name env0 ?fn"
    by (rule d [rule_format, of _ ?rm])
      (intro conjI, simp add: mintrace_remove, simp_all add: mintrace_shrink_def kept_params_def)
  from t have s: "\<forall>fn' ps n v v' qs. args_to_remove fn' = Inr ?rm \<and> type_name fn' = type_name ?fn
          \<and> dict ?fn = ps @ (n, v) # qs \<and> dict fn' = ps @ (n, v') # qs
          \<and> n \<notin> set ?rm \<and> py_str env0 v \<noteq> py_str env0 v'
          \<longrightarrow> build_fn_name env0 fn' \<noteq> build_fn_name env0 ?fn"
    by blast
  have c: "build_fn_name env0 (mintrace_shrink ''MinTrace'' (PNum (PyInt 1)) 1) \<noteq> build_fn_name env0 ?fn"
    by (rule s [rule_format, where ps = "[(''method'', PStr ''mint_shrink'')]" and n = "''nonnegative''"
          and v = "PBool True" and v' = "PNum (PyInt 1)"
          and qs = "[(''insample'', PBool True), (''mint_shr_ridge'', PNum (PyFloat (2 / 10 ^ 8))),
              (''num_threads'', PNum (PyInt 1))]"])
      (intro conjI, simp add: mintrace_remove,
        simp_all add: mintrace_shrink_def str_int_def str_nat.simps)
  from a b c show ?thesis by blast
qed

text \<open>
  Claim C5 as stated fails: an attribute that holds its default appears in the name.
  \<^verbatim>\<open>ERM(method='closed')\<close> keeps its default \<^verbatim>\<open>lambda_reg\<close>, and the default ridge
  \<^verbatim>\<open>2e-8\<close> is kept for every type other than \<^verbatim>\<open>MinTrace\<close>.
\<close>

theorem default_value_in_name:
  "build_fn_name env0 erm = Inr ''ERM_method-closed_lambda_reg-0.01''
   \<and> build_fn_name env0 (mintrace_shrink ''MinTraceSparse'' (PBool False) 1) =
       Inr ''MinTraceSparse_method-mint_shrink_mint_shr_ridge-2e-08''"
  by (simp add: build_fn_name_def args_to_remove_def erm_def mintrace_shrink_def name_tokens_def
        kept_params_def token_def env0_def)

section \<open>The interval estimator: claims C1 and C6\<close>

lemma one_row_cols: "col_names (one_row cols) = map fst cols"
  by (simp add: one_row_def col_names_def case_prod_unfold comp_def)

lemma one_row_index: "index (one_row cols) = [''total'']"
  by (simp add: one_row_def)

lemma one_row_get: "get_col (one_row cols) n = (case map_of cols n of None \<Rightarrow> Inl (KeyError n) | Some v \<Rightarrow> Inr [CNum v])"
  by (induction cols) (auto simp: one_row_def get_col_def split: option.splits)

lemma findall_80: "findall_number ''global-hi-80'' = [''80'']"
  "findall_number ''SeasonalNaive-lo-80'' = [''80'']"
  by code_simp+

lemma py_float_80: "py_float ''80'' = Some 80"
  by (simp add: py_float_def is_digit_def dec_val_def digit_val_def)

lemma pi_global: "pi_model_name Y_hat_global ''global'' = Inr [''global-hi-80'']"
  by (simp add: pi_model_name_def Y_hat_global_def one_row_cols drop_names_def)

lemma global_parts:
  "index Y_hat_global = [''total'']" "get_col Y_hat_global ''global-hi-80'' = Inr [CNum 12]"
  by (simp_all add: Y_hat_global_def one_row_index one_row_get)

lemma seasonal_parts:
  "index Y_hat_seasonal = [''total'']" "get_col Y_hat_seasonal ''SeasonalNaive-lo-80'' = Inr [CNum 15]"
  by (simp_all add: Y_hat_seasonal_def one_row_index one_row_get)

text \<open>
  Claim C1 at the input where the code departs from it. The frame holds the model
  \<^verbatim>\<open>global\<close> with the point forecast 10 and the upper bound \<^verbatim>\<open>global-hi-80\<close> of 12.
  The claim's sigma is \<open>2 / ppf 0.9\<close>; the code tests \<^verbatim>\<open>'lo' in pi_col\<close>, finds
  \<^verbatim>\<open>lo\<close> in the model's name, takes the sign of a lower bound and returns the
  negative \<open>- (2 / ppf 0.9)\<close>.
\<close>

theorem sigmah_of_upper_bound_named_lo:
  "reverse_engineer_sigmah E Y_hat_global y_hat_10 ''global'' =
     Inr \<lparr>nrows = 1, ncols = 1,
          mdata = [if ppf E (9 / 10) = 0 then None else Some (- (2 / ppf E (9 / 10)))]\<rparr>"
  by (simp add: reverse_engineer_sigmah_def pi_global findall_80 py_float_80 unique_def reshape_def
        global_parts y_hat_10_def broadcast2_def bdim_def entry_def sigma_entry_def)

lemma pi_seasonal:
  "pi_model_name Y_hat_seasonal ''Naive'' = Inr [''SeasonalNaive-lo-80'', ''SeasonalNaive-hi-80'']"
  by (simp add: pi_model_name_def Y_hat_seasonal_def one_row_cols drop_names_def)

text \<open>
  Claim C6 at the input where the code departs from it. The frame holds the models
  \<^verbatim>\<open>Naive\<close> and \<^verbatim>\<open>SeasonalNaive\<close> and interval columns of \<^verbatim>\<open>SeasonalNaive\<close> only.
  The claim has the estimator fail for \<^verbatim>\<open>Naive\<close> with an error naming it; the code
  tests \<^verbatim>\<open>model_name in pi_name\<close>, accepts \<^verbatim>\<open>SeasonalNaive-lo-80\<close> and returns a
  sigma from the other model's bound, \<open>- (15 - 10) / ppf 0.9\<close>.
\<close>

theorem sigmah_from_another_models_interval:
  "reverse_engineer_sigmah E Y_hat_seasonal y_hat_10 ''Naive'' =
     Inr \<lparr>nrows = 1, ncols = 1,
          mdata = [if ppf E (9 / 10) = 0 then None else Some (- (5 / ppf E (9 / 10)))]\<rparr>"
  by (simp add: reverse_engineer_sigmah_def pi_seasonal findall_80 py_float_80 unique_def reshape_def
        seasonal_parts y_hat_10_def broadcast2_def bdim_def entry_def sigma_entry_def)

section \<open>The level guard: claim C3\<close>

lemma drop_names_KeyError: "drop_names d df = Inl e \<Longrightarrow> \<exists>c. e = KeyError c"
  by (auto simp: drop_names_def split: list.splits)

lemma check_rest:
  "(case drop_names d Yh of
      Inl e \<Rightarrow> Inl e
    | Inr model_names \<Rightarrow>
        if c4 model_names then Inl NonNumericTypes
        else if c5 model_names then Inl NullValues
        else if c6 model_names then Inl ModelsNotInYdf
        else if c7 model_names then Inl SeriesDifferenceS
        else if c8 model_names then Inl SeriesDifferenceY
        else Inr (x model_names)) \<noteq> Inl LevelOutsideDomain"
  by (auto split: sum.splits dest: drop_names_KeyError)

lemma check_inputs_domain:
  "check_inputs self Yh S Yd level m = Inl LevelOutsideDomain \<longleftrightarrow>
     m \<in> set [''normality'', ''permbu'']
     \<and> \<not> ((self_insample self \<or> m \<in> set [''bootstrap'', ''permbu'']) \<and> Yd = None)
     \<and> (\<exists>lv. level = Some lv \<and> level_outside_domain lv)"
proof -
  define R where "R = (case drop_names (if ''y'' \<in> set (col_names Yh) then [''ds'', ''y''] else [''ds'']) Yh of
           Inl e \<Rightarrow> Inl e
         | Inr model_names \<Rightarrow>
             if \<not> list_all (numeric_col Yh) model_names then Inl NonNumericTypes
             else if list_ex (null_col Yh) model_names then Inl NullValues
             else
               (let pi_model_names =
                      filter (\<lambda>name. contains name ''-lo'' \<or> contains name ''-hi''
                                \<or> contains name ''-median'') model_names;
                    model_names = filter (\<lambda>name. name \<notin> set pi_model_names) model_names;
                    uids = unique (index Yh)
                in if m \<in> set [''bootstrap'', ''permbu'']
                      \<and> (case Yd of
                            None \<Rightarrow> True
                          | Some yd \<Rightarrow> list_ex (\<lambda>m. m \<notin> set (col_names yd)) model_names)
                   then Inl ModelsNotInYdf
                   else if differs (s_index S) uids \<or> differs (index Yh) (s_index S)
                   then Inl SeriesDifferenceS
                   else if (case Yd of
                              None \<Rightarrow> False
                            | Some yd \<Rightarrow> differs (index yd) uids \<or> differs (index Yh) (index yd))
                   then Inl SeriesDifferenceY
                   else Inr (Yh, loc_rows S uids, Yd, model_names)))"
  have r: "R \<noteq> Inl LevelOutsideDomain"
    unfolding R_def Let_def by (rule check_rest)
  have e: "check_inputs self Yh S Yd level m =
      (if m \<notin> set [''normality'', ''bootstrap'', ''permbu'']
       then Inl (UnknownIntervalMethod m)
       else if (self_insample self \<or> m \<in> set [''bootstrap'', ''permbu'']) \<and> Yd = None
       then Inl NeedYdf
       else if (case level of None \<Rightarrow> False | Some lv \<Rightarrow> level_outside_domain lv)
               \<and> m \<in> set [''normality'', ''permbu'']
       then Inl LevelOutsideDomain
       else R)"
    unfolding check_inputs_def R_def by (rule refl)
  have sub: "m \<in> set [''normality'', ''permbu''] \<Longrightarrow> m \<in> set [''normality'', ''bootstrap'', ''permbu'']"
    unfolding set_simps by blast
  show ?thesis
    unfolding e using r sub by (cases level) (auto simp del: set_simps)
qed

lemma sort_frame_not_domain: "sort_frame cats df \<noteq> Inl LevelOutsideDomain"
  by (auto simp: sort_frame_def get_col_def Let_def split: if_splits option.splits)

lemma prepare_fit_domain:
  "prepare_fit self Yh S Yd level m sort_df = Inl LevelOutsideDomain \<longleftrightarrow>
     aligned sort_df Yh S Yd \<and> m \<in> set [''normality'', ''permbu'']
     \<and> \<not> ((self_insample self \<or> m \<in> set [''bootstrap'', ''permbu'']) \<and> Yd = None)
     \<and> (\<exists>lv. level = Some lv \<and> level_outside_domain lv)"
proof (cases sort_df)
  case False
  then show ?thesis by (simp add: prepare_fit_def aligned_def check_inputs_domain del: set_simps)
next
  case True
  show ?thesis
  proof (cases "sort_frame (s_index S) Yh")
    case (Inl e)
    with True sort_frame_not_domain [of "s_index S" Yh] show ?thesis
      by (simp add: prepare_fit_def aligned_def del: set_simps)
  next
    case (Inr Ys)
    show ?thesis
    proof (cases Yd)
      case None
      with True Inr show ?thesis
        by (simp add: prepare_fit_def aligned_def check_inputs_domain del: set_simps)
    next
      case (Some yd)
      show ?thesis
      proof (cases "sort_frame (s_index S) yd")
        case (Inl e)
        with True Inr Some sort_frame_not_domain [of "s_index S" yd] show ?thesis
          by (simp add: prepare_fit_def aligned_def del: set_simps)
      next
        case (Inr Yds)
        with True \<open>sort_frame (s_index S) Yh = Inr Ys\<close> Some show ?thesis
          by (simp add: prepare_fit_def aligned_def check_inputs_domain del: set_simps)
      qed
    qed
  qed
qed

text \<open>
  Claim C3, as the code has it. Alignment and validation ends in the domain error exactly
  when the sorting goes through, the strategy is \<^verbatim>\<open>normality\<close> or \<^verbatim>\<open>permbu\<close>, the
  historical frame is there if it is needed, and a level list is given of which some level
  is below 0 or at least 100. Under \<^verbatim>\<open>bootstrap\<close> it never does.
\<close>

theorem level_domain_error:
  "(prepare_fit self Y_hat_df S_df Y_df level intervals_method sort_df = Inl LevelOutsideDomain
      \<longleftrightarrow> aligned sort_df Y_hat_df S_df Y_df
          \<and> intervals_method \<in> set [''normality'', ''permbu'']
          \<and> (Y_df = None \<longrightarrow> \<not> self_insample self \<and> intervals_method \<notin> set [''bootstrap'', ''permbu''])
          \<and> (\<exists>lv. level = Some lv \<and> (\<exists>l \<in> set lv. num_val l < 0 \<or> 100 \<le> num_val l)))
   \<and> (intervals_method = ''bootstrap''
        \<longrightarrow> prepare_fit self Y_hat_df S_df Y_df level intervals_method sort_df \<noteq> Inl LevelOutsideDomain)"
proof -
  have b: "''bootstrap'' \<notin> set [''normality'', ''permbu'']" by simp
  have "intervals_method = ''bootstrap''
        \<longrightarrow> prepare_fit self Y_hat_df S_df Y_df level intervals_method sort_df \<noteq> Inl LevelOutsideDomain"
    unfolding prepare_fit_domain using b by blast
  moreover have "prepare_fit self Y_hat_df S_df Y_df level intervals_method sort_df = Inl LevelOutsideDomain
      \<longleftrightarrow> aligned sort_df Y_hat_df S_df Y_df
          \<and> intervals_method \<in> set [''normality'', ''permbu'']
          \<and> (Y_df = None \<longrightarrow> \<not> self_insample self \<and> intervals_method \<notin> set [''bootstrap'', ''permbu''])
          \<and> (\<exists>lv. level = Some lv \<and> (\<exists>l \<in> set lv. num_val l < 0 \<or> 100 \<le> num_val l))"
    unfolding prepare_fit_domain level_outside_domain_def list_ex_iff by blast
  ultimately show ?thesis by blast
qed

theorem level_domain_witness:
  "prepare_fit (init [bottom_up]) Y_hat_ets S_one None (Some [PyInt 100]) ''normality'' False
     = Inl LevelOutsideDomain
   \<and> prepare_fit (init [bottom_up]) Y_hat_ets S_one None (Some [PyFloat (999 / 10)]) ''normality'' False
     = Inr (Y_hat_ets, S_one, None, [''ETS''])
   \<and> prepare_fit (init [bottom_up]) Y_hat_ets S_one (Some Y_one) (Some [PyInt 100]) ''bootstrap'' False
     \<noteq> Inl LevelOutsideDomain"
proof -
  have a: "aligned False Y_hat_ets S_one None" by (simp add: aligned_def)
  have i: "\<not> self_insample (init [bottom_up])" by (simp add: init_def bottom_up_def)
  have n: "''normality'' \<in> set [''normality'', ''permbu'']"
    "''normality'' \<notin> set [''bootstrap'', ''permbu'']" by simp_all
  have l: "\<exists>lv. Some [PyInt 100] = Some lv \<and> (\<exists>l \<in> set lv. num_val l < 0 \<or> 100 \<le> num_val l)"
    by simp
  have 1: "prepare_fit (init [bottom_up]) Y_hat_ets S_one None (Some [PyInt 100]) ''normality'' False
     = Inl LevelOutsideDomain"
    using level_domain_error [of "init [bottom_up]" Y_hat_ets S_one None "Some [PyInt 100]"
        "''normality''" False] a i n l by blast
  have 2: "prepare_fit (init [bottom_up]) Y_hat_ets S_one None (Some [PyFloat (999 / 10)]) ''normality'' False
     = Inr (Y_hat_ets, S_one, None, [''ETS''])"
    by code_simp
  have 3: "prepare_fit (init [bottom_up]) Y_hat_ets S_one (Some Y_one) (Some [PyInt 100]) ''bootstrap'' False
     \<noteq> Inl LevelOutsideDomain"
    using level_domain_error [of "init [bottom_up]" Y_hat_ets S_one "Some Y_one" "Some [PyInt 100]"
        "''bootstrap''" False] by blast
  from 1 2 3 show ?thesis by blast
qed

text \<open>
  Claim C3 as stated fails: \<^verbatim>\<open>permbu\<close> resamples, and a level of 100 under it raises
  the domain error.
\<close>

theorem level_domain_error_permbu:
  "prepare_fit (init [bottom_up]) Y_hat_ets S_one (Some Y_one) (Some [PyInt 100]) ''permbu'' False
     = Inl LevelOutsideDomain"
  by code_simp

section \<open>Dispatch and assembly: claims C2, C4, C7, C8 and C10\<close>

lemma sublist_trans2:
  assumes "sublist xs ys" and "sublist ys zs"
  shows "sublist xs zs"
proof -
  from assms obtain p s p' s' where "ys = p @ xs @ s" and "zs = p' @ ys @ s'"
    by (auto simp: sublist_def)
  then have "zs = (p' @ p) @ xs @ (s @ s')" by simp
  then show ?thesis unfolding sublist_def by blast
qed

lemma recmodel_names_mem:
  assumes "fn \<in> set fns" and "m \<in> set mn"
  shows "m @ ''/'' @ fn_name_of E fn \<in> set (recmodel_names E fns mn)"
  using assms by (auto simp: recmodel_names_def)

lemma sort_level_props: "sorted (map num_val (sort_level lv)) \<and> mset (sort_level lv) = mset lv"
  by (simp add: sort_level_def)

text \<open>
  Claim C4. When \<^verbatim>\<open>reconcile\<close> returns and a level list was given, then for every
  reconciler and every model the output frame has, side by side, the columns
  \<open>{model}/{algorithm}-lo-{level}\<close> for the levels in descending order followed by the
  columns \<open>{model}/{algorithm}-hi-{level}\<close> for the levels in ascending order; the same
  list is registered under \<open>{model}/{algorithm}\<close> in \<^verbatim>\<open>level_names\<close>. The witness is
  the claim's example: the levels 80 and 95 give \<open>-lo-95, -lo-80, -hi-80, -hi-95\<close>.
\<close>

theorem interval_columns_order:
  assumes ok: "reconcile E W Y_hat_df S tags Y_df intervals_method num_samples seed sort_df is_balanced
                 = (Inr out, W')"
    and pf: "prepare_fit (w_self W) Y_hat_df S Y_df (w_level W) intervals_method sort_df
               = Inr (Y_hat_df1, S_df, Y_df1, model_names)"
    and lv: "w_level W = Some level"
    and fn: "name_copy \<in> set (map snd (zip (self_reconcilers (w_self W)) (self_orig_reconcilers (w_self W))))"
    and mn: "model_name \<in> set model_names"
  shows "\<exists>fname reg. build_fn_name E name_copy = Inr fname
    \<and> sublist (map (\<lambda>l. model_name @ ''/'' @ fname @ ''-lo-'' @ str_num E l) (rev (sort_level level))
               @ map (\<lambda>l. model_name @ ''/'' @ fname @ ''-hi-'' @ str_num E l) (sort_level level))
         (col_names out)
    \<and> self_level_names (w_self W') = Some reg
    \<and> map_of reg (model_name @ ''/'' @ fname) =
         Some (map (\<lambda>l. model_name @ ''/'' @ fname @ ''-lo-'' @ str_num E l) (rev (sort_level level))
               @ map (\<lambda>l. model_name @ ''/'' @ fname @ ''-hi-'' @ str_num E l) (sort_level level))
    \<and> sorted (map num_val (sort_level level)) \<and> mset (sort_level level) = mset level"
proof -
  let ?fns = "map snd (zip (self_reconcilers (w_self W)) (self_orig_reconcilers (w_self W)))"
  let ?obs = "(col_names Y_hat_df1, reset_self model_names (w_self W), Suc (w_ticks W))"
  let ?A = "assemble E (Some (sort_level level)) num_samples (clock E (w_ticks W))
              (recmodel_names E ?fns model_names) ?obs"
  from reconcile_ok [OF ok] pf lv have
    names: "list_all (\<lambda>p. \<exists>fname. build_fn_name E (snd p) = Inr fname)
               (zip (self_reconcilers (w_self W)) (self_orig_reconcilers (w_self W)))"
    and A: "(col_names out, w_self W', w_ticks W') = ?A"
    by simp_all
  from names fn have "\<exists>fname. build_fn_name E name_copy = Inr fname"
    unfolding list_all_iff by (simp only: set_map) blast
  then obtain fname where f: "build_fn_name E name_copy = Inr fname" ..
  let ?rm = "model_name @ ''/'' @ fname"
  have fo: "fn_name_of E name_copy = fname" by (simp add: fn_name_of_def f)
  have mem: "?rm \<in> set (recmodel_names E ?fns model_names)"
    using recmodel_names_mem [OF fn mn, of E] by (simp add: fo)
  have "sublist (pair_columns E ?rm (Some (sort_level level)) num_samples) (fst ?A)"
    by (rule assemble_sublist [OF mem])
  moreover have "sublist (interval_names E ?rm (sort_level level))
                   (pair_columns E ?rm (Some (sort_level level)) num_samples)"
    by (simp add: pair_columns_def)
  ultimately have "sublist (interval_names E ?rm (sort_level level)) (fst ?A)"
    by (rule sublist_trans2 [rotated])
  then have s: "sublist (interval_names E ?rm (sort_level level)) (col_names out)"
    by (simp add: A [symmetric])
  have "self_level_names (fst (snd ?obs)) = Some []" by (simp add: reset_self_def)
  from assemble_level_names [OF this, of E "sort_level level" num_samples "clock E (w_ticks W)"
      "recmodel_names E ?fns model_names"]
  obtain reg where "self_level_names (fst (snd ?A)) = Some reg"
    and "map_of reg ?rm = Some (interval_names E ?rm (sort_level level))"
    using mem by auto
  then have r: "self_level_names (w_self W') = Some reg"
    "map_of reg ?rm = Some (interval_names E ?rm (sort_level level))"
    by (simp_all add: A [symmetric])
  have e: "interval_names E ?rm (sort_level level) =
      map (\<lambda>l. model_name @ ''/'' @ fname @ ''-lo-'' @ str_num E l) (rev (sort_level level))
        @ map (\<lambda>l. model_name @ ''/'' @ fname @ ''-hi-'' @ str_num E l) (sort_level level)"
    unfolding interval_names_def lo_names_def hi_names_def by (simp only: append_assoc)
  from f s r sort_level_props [of level] show ?thesis
    unfolding e by blast
qed

lemma fst_assemble: "fst (assemble E L ns start rms obs) = layout E L ns rms (fst obs)"
  by (induction rms arbitrary: obs) (auto split: prod.splits)


text \<open>
  Claim C7, as the code has it. When \<^verbatim>\<open>reconcile\<close> returns: with a level list and a
  positive sample count, the output frame has for every reconciler and every model the
  columns \<open>{model}/{algorithm}-sample-{i}\<close> for \<open>i\<close> from 0 up to the count, side by
  side, and \<^verbatim>\<open>sample_names\<close> registers them; without a level list, or with a count
  that is not positive, \<^verbatim>\<open>sample_names\<close> is empty and the columns are the base
  columns, the means and the interval columns only.
\<close>

theorem sample_columns:
  assumes ok: "reconcile E W Y_hat_df S tags Y_df intervals_method num_samples seed sort_df is_balanced
                 = (Inr out, W')"
    and pf: "prepare_fit (w_self W) Y_hat_df S Y_df (w_level W) intervals_method sort_df
               = Inr (Y_hat_df1, S_df, Y_df1, model_names)"
  shows "(w_level W \<noteq> None \<and> 0 < num_samples \<longrightarrow>
           (\<forall>name_copy \<in> set (map snd (zip (self_reconcilers (w_self W)) (self_orig_reconcilers (w_self W)))).
            \<forall>model_name \<in> set model_names.
              \<exists>fname reg. build_fn_name E name_copy = Inr fname
                \<and> sublist (map (\<lambda>i. model_name @ ''/'' @ fname @ ''-sample-'' @ str_int (int i))
                             [0..<nat num_samples]) (col_names out)
                \<and> self_sample_names (w_self W') = Some reg
                \<and> map_of reg (model_name @ ''/'' @ fname) =
                     Some (map (\<lambda>i. model_name @ ''/'' @ fname @ ''-sample-'' @ str_int (int i))
                             [0..<nat num_samples])))
    \<and> (w_level W = None \<or> num_samples \<le> 0 \<longrightarrow>
           self_sample_names (w_self W') = Some []
           \<and> col_names out =
               layout E (map_option sort_level (w_level W)) 0
                 (recmodel_names E
                    (map snd (zip (self_reconcilers (w_self W)) (self_orig_reconcilers (w_self W))))
                    model_names)
                 (col_names Y_hat_df1))"
proof -
  let ?fns = "map snd (zip (self_reconcilers (w_self W)) (self_orig_reconcilers (w_self W)))"
  let ?obs = "(col_names Y_hat_df1, reset_self model_names (w_self W), Suc (w_ticks W))"
  let ?L = "map_option sort_level (w_level W)"
  let ?A = "assemble E ?L num_samples (clock E (w_ticks W)) (recmodel_names E ?fns model_names) ?obs"
  from reconcile_ok [OF ok] pf have
    names: "list_all (\<lambda>p. \<exists>fname. build_fn_name E (snd p) = Inr fname)
               (zip (self_reconcilers (w_self W)) (self_orig_reconcilers (w_self W)))"
    and A: "(col_names out, w_self W', w_ticks W') = ?A"
    by simp_all
  have cn: "col_names out = fst ?A" and sf: "w_self W' = fst (snd ?A)"
    by (simp_all add: A [symmetric])
  have 1: "\<exists>fname reg. build_fn_name E name_copy = Inr fname
                \<and> sublist (map (\<lambda>i. model_name @ ''/'' @ fname @ ''-sample-'' @ str_int (int i))
                             [0..<nat num_samples]) (col_names out)
                \<and> self_sample_names (w_self W') = Some reg
                \<and> map_of reg (model_name @ ''/'' @ fname) =
                     Some (map (\<lambda>i. model_name @ ''/'' @ fname @ ''-sample-'' @ str_int (int i))
                             [0..<nat num_samples])"
    if lv: "w_level W \<noteq> None" and ns: "0 < num_samples"
      and fn: "name_copy \<in> set ?fns" and mn: "model_name \<in> set model_names"
    for name_copy model_name
  proof -
    from lv obtain level where l: "w_level W = Some level" by blast
    from names fn have "\<exists>fname. build_fn_name E name_copy = Inr fname"
      unfolding list_all_iff by (simp only: set_map) blast
    then obtain fname where f: "build_fn_name E name_copy = Inr fname" ..
    let ?rm = "model_name @ ''/'' @ fname"
    have fo: "fn_name_of E name_copy = fname" by (simp add: fn_name_of_def f)
    have mem: "?rm \<in> set (recmodel_names E ?fns model_names)"
      using recmodel_names_mem [OF fn mn, of E] by (simp only: fo)
    have "sublist (pair_columns E ?rm ?L num_samples) (fst ?A)"
      by (rule assemble_sublist [OF mem])
    moreover have "sublist (sample_names ?rm num_samples) (pair_columns E ?rm ?L num_samples)"
      using ns by (simp add: pair_columns_def l del: append_assoc)
    ultimately have s: "sublist (sample_names ?rm num_samples) (col_names out)"
      unfolding cn by (rule sublist_trans2 [rotated])
    have "self_sample_names (fst (snd ?obs)) = Some []" by (simp add: reset_self_def)
    from assemble_sample_names [OF this ns, of E "sort_level level" "clock E (w_ticks W)"
        "recmodel_names E ?fns model_names"]
    obtain reg where "self_sample_names (fst (snd ?A)) = Some reg"
      and "map_of reg ?rm = Some (sample_names ?rm num_samples)"
      using mem by (auto simp: l)
    then have r: "self_sample_names (w_self W') = Some reg"
      "map_of reg ?rm = Some (sample_names ?rm num_samples)"
      by (simp_all add: sf)
    have e: "sample_names ?rm num_samples =
        map (\<lambda>i. model_name @ ''/'' @ fname @ ''-sample-'' @ str_int (int i)) [0..<nat num_samples]"
      unfolding sample_names_def by (simp only: append_assoc)
    from f s r show ?thesis unfolding e by blast
  qed
  have 2: "self_sample_names (w_self W') = Some []
           \<and> col_names out = layout E ?L 0 (recmodel_names E ?fns model_names) (col_names Y_hat_df1)"
    if "w_level W = None \<or> num_samples \<le> 0"
  proof -
    from that have "?L = None \<or> num_samples \<le> 0" by auto
    from assemble_no_samples [OF this]
    have z: "?A = assemble E ?L 0 (clock E (w_ticks W)) (recmodel_names E ?fns model_names) ?obs" .
    show ?thesis
      unfolding cn sf z by (simp add: assemble_zero_sample_names fst_assemble reset_self_def)
  qed
  from 1 2 show ?thesis by blast
qed

text \<open>
  Claim C10. When \<^verbatim>\<open>reconcile\<close> returns, a level list was given and the call has
  registered interval columns, the caller's list holds the same levels in ascending order.
\<close>

theorem level_sorted_in_place:
  assumes ok: "reconcile E W Y_hat_df S tags Y_df intervals_method num_samples seed sort_df is_balanced
                 = (Inr out, W')"
    and lv: "w_level W = Some level"
    and pi: "self_level_names (w_self W') \<noteq> Some []"
  shows "w_level W' = Some (sort_level level)
    \<and> sorted (map num_val (sort_level level)) \<and> mset (sort_level level) = mset level"
proof -
  from reconcile_ok [OF ok] obtain Yh1 mn where
    A: "(col_names out, w_self W', w_ticks W') =
          assemble E (map_option sort_level (w_level W)) num_samples (clock E (w_ticks W))
            (recmodel_names E
               (map snd (zip (self_reconcilers (w_self W)) (self_orig_reconcilers (w_self W)))) mn)
            (col_names Yh1, reset_self mn (w_self W), Suc (w_ticks W))"
    and L: "w_level W' =
              (if recmodel_names E
                    (map snd (zip (self_reconcilers (w_self W)) (self_orig_reconcilers (w_self W)))) mn = []
               then w_level W else map_option sort_level (w_level W))"
    by blast
  have "recmodel_names E
          (map snd (zip (self_reconcilers (w_self W)) (self_orig_reconcilers (w_self W)))) mn \<noteq> []"
  proof
    assume "recmodel_names E
          (map snd (zip (self_reconcilers (w_self W)) (self_orig_reconcilers (w_self W)))) mn = []"
    with A have "w_self W' = reset_self mn (w_self W)" by simp
    with pi show False by (simp add: reset_self_def)
  qed
  with L lv have "w_level W' = Some (sort_level level)" by simp
  with sort_level_props [of level] show ?thesis by blast
qed






































lemma W0_parts:
  "w_level (W0 L) = L"
  "set (map snd (zip (self_reconcilers (w_self (W0 L))) (self_orig_reconcilers (w_self (W0 L))))) = {bottom_up}"
  by (simp_all add: W0_def init_def)

lemma bottom_up_name: "build_fn_name env0 bottom_up = Inr ''BottomUp''"
  by (simp add: build_fn_name_def args_to_remove_def bottom_up_def name_tokens_def kept_params_def)

theorem interval_columns_witness:
  "fst (reconcile env0 (W0 (Some [PyInt 80, PyInt 95])) Y_hat_ets S_one tags_one None ''normality'' (- 1) 0
         False False)
     = Inr (out_ets [(''ETS/BottomUp'', 10), (''ETS/BottomUp-lo-95'', 10), (''ETS/BottomUp-lo-80'', 10),
                     (''ETS/BottomUp-hi-80'', 10), (''ETS/BottomUp-hi-95'', 10)])
   \<and> sublist [''ETS/BottomUp-lo-95'', ''ETS/BottomUp-lo-80'', ''ETS/BottomUp-hi-80'', ''ETS/BottomUp-hi-95'']
        (col_names (out_ets [(''ETS/BottomUp'', 10), (''ETS/BottomUp-lo-95'', 10),
                             (''ETS/BottomUp-lo-80'', 10), (''ETS/BottomUp-hi-80'', 10),
                             (''ETS/BottomUp-hi-95'', 10)]))"
proof -
  let ?W = "W0 (Some [PyInt 80, PyInt 95])"
  let ?R = "reconcile env0 ?W Y_hat_ets S_one tags_one None ''normality'' (- 1) 0 False False"
  let ?out = "out_ets [(''ETS/BottomUp'', 10), (''ETS/BottomUp-lo-95'', 10), (''ETS/BottomUp-lo-80'', 10),
                     (''ETS/BottomUp-hi-80'', 10), (''ETS/BottomUp-hi-95'', 10)]"
  have f: "fst ?R = Inr ?out" by code_simp
  then have ok: "?R = (Inr ?out, snd ?R)" by (simp only: prod_eq_iff fst_conv snd_conv simp_thms)
  have pf: "prepare_fit (w_self ?W) Y_hat_ets S_one None (w_level ?W) ''normality'' False
              = Inr (Y_hat_ets, S_one, None, [''ETS''])"
    by code_simp
  have fn: "bottom_up \<in> set (map snd (zip (self_reconcilers (w_self ?W)) (self_orig_reconcilers (w_self ?W))))"
    unfolding W0_parts by blast
  have mn: "''ETS'' \<in> set [''ETS'']" by simp
  from interval_columns_order [OF ok pf W0_parts(1) fn mn] obtain fname where
    n: "build_fn_name env0 bottom_up = Inr fname"
    and s: "sublist (map (\<lambda>l. ''ETS'' @ ''/'' @ fname @ ''-lo-'' @ str_num env0 l)
                       (rev (sort_level [PyInt 80, PyInt 95]))
                     @ map (\<lambda>l. ''ETS'' @ ''/'' @ fname @ ''-hi-'' @ str_num env0 l)
                         (sort_level [PyInt 80, PyInt 95])) (col_names ?out)"
    by blast
  from n have fname: "fname = ''BottomUp''" by (simp only: bottom_up_name sum.inject)
  have e: "map (\<lambda>l. ''ETS'' @ ''/'' @ ''BottomUp'' @ ''-lo-'' @ str_num env0 l)
                       (rev (sort_level [PyInt 80, PyInt 95]))
                     @ map (\<lambda>l. ''ETS'' @ ''/'' @ ''BottomUp'' @ ''-hi-'' @ str_num env0 l)
                         (sort_level [PyInt 80, PyInt 95])
           = [''ETS/BottomUp-lo-95'', ''ETS/BottomUp-lo-80'', ''ETS/BottomUp-hi-80'', ''ETS/BottomUp-hi-95'']"
    by code_simp
  from s have "sublist [''ETS/BottomUp-lo-95'', ''ETS/BottomUp-lo-80'', ''ETS/BottomUp-hi-80'',
                        ''ETS/BottomUp-hi-95''] (col_names ?out)"
    unfolding fname e .
  with f show ?thesis by (rule conjI)
qed

theorem sample_columns_witness:
  "fst (reconcile env0 (W0 (Some [PyInt 80])) Y_hat_ets S_one tags_one None ''normality'' 2 0 False False)
     = Inr (out_ets [(''ETS/BottomUp'', 10), (''ETS/BottomUp-lo-80'', 10), (''ETS/BottomUp-hi-80'', 10),
                     (''ETS/BottomUp-sample-0'', 10), (''ETS/BottomUp-sample-1'', 10)])
   \<and> sublist [''ETS/BottomUp-sample-0'', ''ETS/BottomUp-sample-1'']
        (col_names (out_ets [(''ETS/BottomUp'', 10), (''ETS/BottomUp-lo-80'', 10),
                             (''ETS/BottomUp-hi-80'', 10), (''ETS/BottomUp-sample-0'', 10),
                             (''ETS/BottomUp-sample-1'', 10)]))
   \<and> fst (reconcile env0 (W0 (Some [PyInt 80])) Y_hat_ets S_one tags_one None ''normality'' 0 0 False False)
     = Inr (out_ets [(''ETS/BottomUp'', 10), (''ETS/BottomUp-lo-80'', 10), (''ETS/BottomUp-hi-80'', 10)])
   \<and> self_sample_names (w_self (snd (reconcile env0 (W0 (Some [PyInt 80])) Y_hat_ets S_one tags_one None
        ''normality'' 0 0 False False))) = Some []"
proof -
  let ?W = "W0 (Some [PyInt 80])"
  let ?R = "reconcile env0 ?W Y_hat_ets S_one tags_one None ''normality'' 2 0 False False"
  let ?out = "out_ets [(''ETS/BottomUp'', 10), (''ETS/BottomUp-lo-80'', 10), (''ETS/BottomUp-hi-80'', 10),
                     (''ETS/BottomUp-sample-0'', 10), (''ETS/BottomUp-sample-1'', 10)]"
  let ?Rz = "reconcile env0 ?W Y_hat_ets S_one tags_one None ''normality'' 0 0 False False"
  let ?outz = "out_ets [(''ETS/BottomUp'', 10), (''ETS/BottomUp-lo-80'', 10), (''ETS/BottomUp-hi-80'', 10)]"
  have f: "fst ?R = Inr ?out" by code_simp
  then have ok: "?R = (Inr ?out, snd ?R)" by (simp only: prod_eq_iff fst_conv snd_conv simp_thms)
  have f0: "fst ?Rz = Inr ?outz" by code_simp
  then have ok0: "?Rz = (Inr ?outz, snd ?Rz)" by (simp only: prod_eq_iff fst_conv snd_conv simp_thms)
  have pf: "prepare_fit (w_self ?W) Y_hat_ets S_one None (w_level ?W) ''normality'' False
              = Inr (Y_hat_ets, S_one, None, [''ETS''])"
    by code_simp
  have fn: "bottom_up \<in> set (map snd (zip (self_reconcilers (w_self ?W)) (self_orig_reconcilers (w_self ?W))))"
    unfolding W0_parts by blast
  have mn: "''ETS'' \<in> set [''ETS'']" by simp
  have c: "w_level ?W \<noteq> None \<and> 0 < (2::int)" by (simp add: W0_parts)
  from sample_columns [OF ok pf] c fn mn obtain fname where
    n: "build_fn_name env0 bottom_up = Inr fname"
    and s: "sublist (map (\<lambda>i. ''ETS'' @ ''/'' @ fname @ ''-sample-'' @ str_int (int i)) [0..<nat 2])
              (col_names ?out)"
    by blast
  from n have fname: "fname = ''BottomUp''" by (simp only: bottom_up_name sum.inject)
  have e: "map (\<lambda>i. ''ETS'' @ ''/'' @ ''BottomUp'' @ ''-sample-'' @ str_int (int i)) [0..<nat 2]
           = [''ETS/BottomUp-sample-0'', ''ETS/BottomUp-sample-1'']"
    by code_simp
  from s have 1: "sublist [''ETS/BottomUp-sample-0'', ''ETS/BottomUp-sample-1''] (col_names ?out)"
    unfolding fname e .
  have c0: "w_level ?W = None \<or> (0::int) \<le> 0" by simp
  from sample_columns [OF ok0 pf] c0
  have 2: "self_sample_names (w_self (snd ?Rz)) = Some []" by blast
  from f 1 f0 2 show ?thesis by blast
qed

text \<open>
  Claim C7 as stated fails: a positive sample count without a level list adds the mean
  column and no sample column.
\<close>

theorem no_samples_without_levels:
  "fst (reconcile env0 (W0 None) Y_hat_ets S_one tags_one None ''normality'' 2 0 False False)
     = Inr (out_ets [(''ETS/BottomUp'', 10)])
   \<and> self_sample_names (w_self (snd (reconcile env0 (W0 None) Y_hat_ets S_one tags_one None
        ''normality'' 2 0 False False))) = Some []"
  by code_simp

theorem level_sorted_witness:
  "w_level (snd (reconcile env0 (W0 (Some [PyInt 95, PyInt 80])) Y_hat_ets S_one tags_one None
      ''normality'' (- 1) 0 False False)) = Some [PyInt 80, PyInt 95]"
proof -
  let ?W = "W0 (Some [PyInt 95, PyInt 80])"
  let ?R = "reconcile env0 ?W Y_hat_ets S_one tags_one None ''normality'' (- 1) 0 False False"
  let ?out = "out_ets [(''ETS/BottomUp'', 10), (''ETS/BottomUp-lo-95'', 10), (''ETS/BottomUp-lo-80'', 10),
                     (''ETS/BottomUp-hi-80'', 10), (''ETS/BottomUp-hi-95'', 10)]"
  have f: "fst ?R = Inr ?out" by code_simp
  then have ok: "?R = (Inr ?out, snd ?R)" by (simp only: prod_eq_iff fst_conv snd_conv simp_thms)
  have pi: "self_level_names (w_self (snd ?R)) \<noteq> Some []" by code_simp
  have sl: "sort_level [PyInt 95, PyInt 80] = [PyInt 80, PyInt 95]" by code_simp
  from level_sorted_in_place [OF ok W0_parts(1) pi] show ?thesis
    unfolding sl by blast
qed





section \<open>The bootstrap orchestrator: claim C9\<close>

lemma seeds_loop_later:
  assumes "seeds_loop E Yh S tags Yd m ns seeds (Some cols) acc W = (Inr fs, W')"
    and "0 \<notin> set seeds"
  shows "\<exists>frames. seed_runs E Yh S tags Yd m ns seeds W W' frames
           \<and> length frames = length seeds
           \<and> list_all (\<lambda>f. length (columns f) = length cols) frames
           \<and> fs = acc @ map (renamed cols) frames"
  using assms
proof (induction seeds arbitrary: acc W)
  case Nil
  then show ?case by (auto intro: seed_runs.intros)
next
  case (Cons seed seeds)
  from Cons.prems(2) have s0: "seed \<noteq> 0" and rest: "0 \<notin> set seeds" by auto
  from Cons.prems(1) s0 obtain Yt W1 Ys where
      r: "reconcile E W Yh S tags Yd m ns seed False False = (Inr Yt, W1)"
    and c: "seed_column Yt seed = Inr Ys"
    and len: "length cols = length (columns Ys)"
    and l: "seeds_loop E Yh S tags Yd m ns seeds (Some cols) (acc @ [renamed cols Ys]) W1 = (Inr fs, W')"
    by (auto simp: seed_column_def rename_columns_def renamed_def
             split: prod.splits sum.splits if_splits)
  from Cons.IH [OF l rest] obtain frames where
      f: "seed_runs E Yh S tags Yd m ns seeds W1 W' frames"
    and fl: "length frames = length seeds"
    and fa: "list_all (\<lambda>f. length (columns f) = length cols) frames"
    and fs: "fs = (acc @ [renamed cols Ys]) @ map (renamed cols) frames"
    by blast
  have "seed_runs E Yh S tags Yd m ns (seed # seeds) W W' (Ys # frames)"
    by (rule seed_runs.next_seed [OF r c f])
  with fl fa fs len show ?case
    by (intro exI [of _ "Ys # frames"]) simp
qed

lemma renamed_self: "renamed (col_names df) df = df"
  by (simp add: renamed_def col_names_def zip_map_fst_snd)

lemma concat_rows_names:
  assumes "concat_rows (f # fs) = Inr out"
  shows "col_names out = col_names f \<and> index out = concat (map index (f # fs))"
proof -
  have "map snd (zip [0..<length (columns f)] (map fst (columns f))) = map fst (columns f)"
    by (rule map_snd_zip) simp
  with assms show ?thesis
    by (auto simp: concat_rows_def col_names_def comp_def case_prod_unfold)
qed

lemma index_renamed: "index (renamed names df) = index df"
  by (simp add: renamed_def)

lemma upt_int_split: "0 < n \<Longrightarrow> map int [0..<n] = 0 # map int [1..<n]"
  by (simp add: upt_conv_Cons)

text \<open>
  Claim C9. When \<^verbatim>\<open>bootstrap_reconcile\<close> returns, it has validated once without
  levels and then called \<^verbatim>\<open>reconcile\<close> once per seed of \<open>[0, num_seeds)\<close>, in order;
  every returned frame got the column \<^verbatim>\<open>seed\<close> and was renamed by position to the
  column names of the first one, with which it shares the number of columns and nothing
  else that is checked; the output is these frames one below the other, under the first
  frame's column names.
\<close>

theorem bootstrap_runs_once_per_seed:
  assumes ok: "bootstrap_reconcile E W Y_hat_df S tags Y_df intervals_method num_samples num_seeds sort_df
                 = (Inr out, W')"
    and pf: "prepare_fit (w_self W) Y_hat_df S Y_df None intervals_method sort_df
               = Inr (Y_hat_df1, S_df, Y_df1, model_names)"
  shows "\<exists>frames.
           seed_runs E Y_hat_df1 S_df tags Y_df1 intervals_method num_samples (map int [0..<nat num_seeds])
             (W\<lparr>w_self := (w_self W)\<lparr>self_model_names := Some model_names\<rparr>\<rparr>) W' frames
         \<and> 0 < num_seeds \<and> length frames = nat num_seeds
         \<and> list_all (\<lambda>f. length (columns f) = length (columns (hd frames))) frames
         \<and> concat_rows (map (renamed (col_names (hd frames))) frames) = Inr out
         \<and> col_names out = col_names (hd frames)
         \<and> ''seed'' \<in> set (col_names out)
         \<and> index out = concat (map index frames)"
proof -
  let ?W1 = "W\<lparr>w_self := (w_self W)\<lparr>self_model_names := Some model_names\<rparr>\<rparr>"
  let ?seeds = "map int [0..<nat num_seeds]"
  from ok pf obtain fs where
      l: "seeds_loop E Y_hat_df1 S_df tags Y_df1 intervals_method num_samples ?seeds None [] ?W1 = (Inr fs, W')"
    and c: "concat_rows fs = Inr out"
    by (auto simp: bootstrap_reconcile_def Let_def split: prod.splits sum.splits)
  have pos: "0 < nat num_seeds"
  proof (rule ccontr)
    assume "\<not> 0 < nat num_seeds"
    with l have "fs = []" by simp
    with c show False by (simp add: concat_rows_def)
  qed
  let ?rest = "map int [1..<nat num_seeds]"
  have sp: "?seeds = 0 # ?rest" using pos by (rule upt_int_split)
  from l obtain Yt W1 Ys where
      r: "reconcile E ?W1 Y_hat_df1 S_df tags Y_df1 intervals_method num_samples 0 False False = (Inr Yt, W1)"
    and sc: "seed_column Yt 0 = Inr Ys"
    and l2: "seeds_loop E Y_hat_df1 S_df tags Y_df1 intervals_method num_samples ?rest
               (Some (col_names Ys)) [renamed (col_names Ys) Ys] W1 = (Inr fs, W')"
    unfolding sp
    by (auto simp: seed_column_def rename_columns_def renamed_def
             split: prod.splits sum.splits if_splits)
  have nz: "0 \<notin> set ?rest" by auto
  from seeds_loop_later [OF l2 nz] obtain frames where
      f: "seed_runs E Y_hat_df1 S_df tags Y_df1 intervals_method num_samples ?rest W1 W' frames"
    and fl: "length frames = length ?rest"
    and fa: "list_all (\<lambda>f. length (columns f) = length (col_names Ys)) frames"
    and fs: "fs = [renamed (col_names Ys) Ys] @ map (renamed (col_names Ys)) frames"
    by blast
  have runs: "seed_runs E Y_hat_df1 S_df tags Y_df1 intervals_method num_samples ?seeds ?W1 W' (Ys # frames)"
    unfolding sp by (rule seed_runs.next_seed [OF r sc f])
  have len: "length (Ys # frames) = nat num_seeds" using fl pos by simp
  have all: "list_all (\<lambda>f. length (columns f) = length (columns (hd (Ys # frames)))) (Ys # frames)"
    using fa by (simp add: col_names_def)
  have cr: "concat_rows (map (renamed (col_names (hd (Ys # frames)))) (Ys # frames)) = Inr out"
    using c fs by simp
  have seed_in: "''seed'' \<in> set (col_names Ys)"
    using set_col_names [OF sc [unfolded seed_column_def]] by (simp add: add_name_def)
  have cr2: "concat_rows (Ys # map (renamed (col_names Ys)) frames) = Inr out"
    using cr by (simp add: renamed_self)
  have cn: "col_names out = col_names Ys"
    using concat_rows_names [OF cr2] by simp
  have ix: "index out = concat (map index (Ys # frames))"
    using concat_rows_names [OF cr2] by (simp add: comp_def index_renamed)
  from runs len all cr cn seed_in ix pos show ?thesis
    by (intro exI [of _ "Ys # frames"]) simp
qed

theorem bootstrap_witness:
  "fst (bootstrap_reconcile env0 (W0 (Some [PyInt 80])) Y_hat_ets S_one tags_one None ''normality'' (- 1) 2
          False) = Inr out_two_seeds
   \<and> (\<exists>frames.
         seed_runs env0 Y_hat_ets S_one tags_one None ''normality'' (- 1) (map int [0..<nat 2])
           ((W0 (Some [PyInt 80]))\<lparr>w_self := (w_self (W0 (Some [PyInt 80])))
              \<lparr>self_model_names := Some [''ETS'']\<rparr>\<rparr>)
           (snd (bootstrap_reconcile env0 (W0 (Some [PyInt 80])) Y_hat_ets S_one tags_one None
                   ''normality'' (- 1) 2 False))
           frames
       \<and> length frames = nat 2
       \<and> concat_rows (map (renamed (col_names (hd frames))) frames) = Inr out_two_seeds)"
proof -
  let ?W = "W0 (Some [PyInt 80])"
  let ?B = "bootstrap_reconcile env0 ?W Y_hat_ets S_one tags_one None ''normality'' (- 1) 2 False"
  have f: "fst ?B = Inr out_two_seeds" by code_simp
  then have ok: "?B = (Inr out_two_seeds, snd ?B)"
    by (simp only: prod_eq_iff fst_conv snd_conv simp_thms)
  have pf: "prepare_fit (w_self ?W) Y_hat_ets S_one None None ''normality'' False
              = Inr (Y_hat_ets, S_one, None, [''ETS''])"
    by code_simp
  from bootstrap_runs_once_per_seed [OF ok pf] f show ?thesis by blast
qed

end
